theory Spec2Isabelle
  imports Main "HOL-Library.Multiset" "HOL-Library.Sublist" "HOL-Library.Word"
begin

unbundle bit_operations_syntax

section \<open>The video converter worker: chunk merging, transcoding, error reporting\<close>

text \<open>
  A shallow embedding of the Go package \<open>converter\<close>: the methods of \<open>VideoConverter\<close>
  (\<open>Handle\<close>, \<open>processVideo\<close>, \<open>logError\<close>, \<open>extractNumber\<close>, \<open>mergeChunks\<close>) and the
  functions of \<open>idempotency.go\<close> (\<open>IsProcessed\<close>, \<open>MarkProcess\<close>, \<open>RegisterError\<close>).

  The program acts on a file system, a structured log and a database. They are the fields
  of the record \<open>world\<close>, passed through every function and returned updated. What the
  operating system and the Go standard library decide (which files a glob finds, whether a
  system call fails, what the external encoder does, the order \<open>sort.Slice\<close> leaves) is
  read from the record \<open>env\<close>. A non-nil Go \<open>error\<close> is kept as its message; \<open>nil\<close>
  is \<open>None\<close>. A run-time panic is the left summand of the result.
\<close>

subsection \<open>Strings, paths and the ordering key\<close>

type_synonym path = string
type_synonym bytes = string
type_synonym error = string

definition isDigit :: "char \<Rightarrow> bool" where
  "isDigit c \<longleftrightarrow> 48 \<le> (of_char c :: nat) \<and> (of_char c :: nat) \<le> 57"

definition digitVal :: "char \<Rightarrow> nat" where
  "digitVal c = of_char c - 48"

text \<open>The value of a string of decimal digits, most significant digit first.\<close>

definition decimal :: "string \<Rightarrow> nat" where
  "decimal ds = foldl (\<lambda>n c. 10 * n + digitVal c) 0 ds"

text \<open>
  \<open>filepath.Base\<close> on a system whose separator is the slash: the empty path gives a dot,
  trailing slashes are dropped, the last element is kept, and a path of slashes only
  gives one slash.
\<close>

definition IsPathSeparator :: "char \<Rightarrow> bool" where
  "IsPathSeparator c \<longleftrightarrow> c = CHR ''/''"

definition filepath_Base :: "path \<Rightarrow> string" where
  "filepath_Base p =
     (if p = [] then ''.''
      else let stripped = rev (dropWhile IsPathSeparator (rev p));
               element = rev (takeWhile (\<lambda>c. \<not> IsPathSeparator c) (rev stripped))
           in if element = [] then ''/'' else element)"

text \<open>
  \<open>regexp.MustCompile(`\d+`).FindString\<close>: the leftmost match of one or more ASCII
  digits, as long as it can be; the empty string when there is no digit.
\<close>

definition FindString_digits :: "string \<Rightarrow> string" where
  "FindString_digits s = takeWhile isDigit (dropWhile (\<lambda>c. \<not> isDigit c) s)"

text \<open>
  \<open>strconv.Atoi\<close> with a 64-bit \<open>int\<close>: an optional sign, then decimal digits only;
  a syntax error otherwise, a range error when the value does not fit.
\<close>

datatype NumError = ErrSyntax | ErrRange

definition maxInt :: int where
  "maxInt = 2 ^ 63 - 1"

definition minInt :: int where
  "minInt = - (2 ^ 63)"

definition Atoi :: "string \<Rightarrow> NumError + int" where
  "Atoi s =
     (let signed = (s \<noteq> [] \<and> (hd s = CHR ''-'' \<or> hd s = CHR ''+''));
          neg = (s \<noteq> [] \<and> hd s = CHR ''-'');
          ds = (if signed then tl s else s)
      in if ds = [] \<or> \<not> list_all isDigit ds then Inl ErrSyntax
         else let n = (if neg then - int (decimal ds) else int (decimal ds))
              in if minInt \<le> n \<and> n \<le> maxInt then Inr n else Inl ErrRange)"

definition extractNumber :: "path \<Rightarrow> int" where
  "extractNumber fileName =
     (case Atoi (FindString_digits (filepath_Base fileName)) of
        Inl err \<Rightarrow> - 1
      | Inr num \<Rightarrow> num)"

text \<open>
  The key as the specification words it: the first maximal run of decimal digits of the
  base filename, read as a number of any size; none when the name has no digit.
\<close>

definition embedded_integer :: "path \<Rightarrow> nat option" where
  "embedded_integer fileName =
     (let run = FindString_digits (filepath_Base fileName)
      in if run = [] then None else Some (decimal run))"

subsection \<open>Tasks, log records, the database and the world\<close>

record VideoTask =
  VideoID :: int
  Path :: string

text \<open>
  A value stored in a \<open>map[string]any\<close>: the kinds the program puts there, and one kind
  (a channel) that \<open>json.Marshal\<close> rejects.
\<close>

datatype any = AInt int | AStr string | ATime nat | AChan

type_synonym errorData = "(string \<times> any) list"

text \<open>
  The bytes \<open>json.Marshal\<close> returns, kept as the value they encode: \<open>NilBytes\<close> when
  marshalling fails (the program drops that error).
\<close>

datatype json_bytes = NilBytes | JsonOf errorData

definition json_Marshal :: "errorData \<Rightarrow> json_bytes" where
  "json_Marshal m = (if AChan \<in> snd ` set m then NilBytes else JsonOf m)"

datatype level = LevelInfo | LevelError

datatype attr = SlogString string | SlogInt int | SlogJson json_bytes

type_synonym log_record = "level \<times> string \<times> (string \<times> attr) list"

text \<open>
  The database behind a \<open>*sql.DB\<close>: the two tables, the statements executed so far
  (oldest first), and for each statement text the error the driver answers with, if any.
\<close>

record sql_DB =
  processed_videos :: "(int \<times> string \<times> nat) list"
  process_errors_log :: "(json_bytes \<times> nat) list"
  statements :: "string list"
  db_fault :: "string \<Rightarrow> error option"

text \<open>A \<open>*sql.DB\<close> argument: the nil pointer, or a handle on the world's database.\<close>

datatype db_ptr = NilDB | DB

record world =
  files :: "path \<rightharpoonup> bytes"
  dirs :: "path set"
  slog :: "log_record list"
  database :: sql_DB

datatype panic = NilPointerDereference

text \<open>
  How a started command ends: it could not be started, it exited with a status, or a
  signal ended it. The bytes are what it wrote to standard output and standard error.
\<close>

datatype cmd_outcome = StartError error | ExitStatus nat bytes | Signaled string bytes

text \<open>
  What lies outside the program, one field for each call it makes:
  \<^item> \<open>json_Unmarshal\<close> decodes a message into the task given to it and may fail, leaving
    the task partly filled;
  \<^item> \<open>filepath_Join\<close> and \<open>filepath_Glob\<close> are the path functions; the glob lists the
    matching files in an order of its own, or fails on a malformed pattern;
  \<^item> \<open>sort_Slice\<close> is the standard library's sort, given the comparison of two elements;
  \<^item> the \<open>_fault\<close> fields say which system calls fail and with what error; a copy that
    fails also says after how many bytes;
  \<^item> \<open>run_command\<close> runs a command line on the file system and gives how it ended and
    the files it left;
  \<^item> \<open>time_Now\<close> is the clock, read as one value throughout a run.

  Every call is taken to return. A chunk that is itself the output file is outside the
  model: the properties below assume the output path is not among the chunks.
\<close>

record env =
  json_Unmarshal :: "bytes \<Rightarrow> VideoTask \<Rightarrow> VideoTask \<times> error option"
  filepath_Join :: "string \<Rightarrow> string \<Rightarrow> path"
  filepath_Glob :: "string \<Rightarrow> path list \<times> error option"
  sort_Slice :: "(path \<Rightarrow> path \<Rightarrow> bool) \<Rightarrow> path list \<Rightarrow> path list"
  Create_fault :: "path \<Rightarrow> error option"
  Open_fault :: "path \<Rightarrow> error option"
  ReadFrom_fault :: "path \<Rightarrow> (nat \<times> error) option"
  MkdirAll_fault :: "path \<Rightarrow> error option"
  run_command :: "string list \<Rightarrow> (path \<rightharpoonup> bytes) \<Rightarrow> cmd_outcome \<times> (path \<rightharpoonup> bytes)"
  Remove_fault :: "path \<Rightarrow> error option"
  time_Now :: nat

text \<open>
  What the documentation of \<open>sort.Slice\<close> promises of one call: the slice holds the same
  elements, and no element is less than one before it. It promises no more: equal elements
  may end in any order.
\<close>

definition sort_Slice_post :: "('a \<Rightarrow> 'a \<Rightarrow> bool) \<Rightarrow> 'a list \<Rightarrow> 'a list \<Rightarrow> bool" where
  "sort_Slice_post lt xs ys \<longleftrightarrow> mset ys = mset xs \<and> sorted_wrt (\<lambda>a b. \<not> lt b a) ys"

subsection \<open>Logging\<close>

definition slog_Info :: "world \<Rightarrow> string \<Rightarrow> (string \<times> attr) list \<Rightarrow> world" where
  "slog_Info w m attrs = w\<lparr>slog := slog w @ [(LevelInfo, m, attrs)]\<rparr>"

definition slog_Error :: "world \<Rightarrow> string \<Rightarrow> (string \<times> attr) list \<Rightarrow> world" where
  "slog_Error w m attrs = w\<lparr>slog := slog w @ [(LevelError, m, attrs)]\<rparr>"

text \<open>
  \<open>logError\<close>: builds the map (calling \<open>err.Error()\<close>, which panics on a nil error),
  marshals it and emits one record at error level. It touches nothing but the log.
\<close>

definition error_record :: "env \<Rightarrow> VideoTask \<Rightarrow> string \<Rightarrow> error \<Rightarrow> log_record" where
  "error_record e task message err =
     (LevelError, ''Processing error'',
      [(''error_details'', SlogJson (json_Marshal
          [(''video_id'', AInt (VideoID task)), (''error'', AStr message),
           (''details'', AStr err), (''time'', ATime (time_Now e))]))])"

definition logError :: "env \<Rightarrow> world \<Rightarrow> VideoTask \<Rightarrow> string \<Rightarrow> error option \<Rightarrow> panic + world" where
  "logError e w task message err =
     (case err of
        None \<Rightarrow> Inl NilPointerDereference
      | Some details \<Rightarrow> Inr (w\<lparr>slog := slog w @ [error_record e task message details]\<rparr>))"

subsection \<open>The file system calls\<close>

text \<open>\<open>os.Create\<close>: fails as the system decides, else leaves an empty file at the path.\<close>

definition os_Create :: "env \<Rightarrow> (path \<rightharpoonup> bytes) \<Rightarrow> path \<Rightarrow> error + (path \<rightharpoonup> bytes)" where
  "os_Create e fs p =
     (case Create_fault e p of
        Some err \<Rightarrow> Inl err
      | None \<Rightarrow> Inr (fs(p \<mapsto> [])))"

text \<open>\<open>os.Open\<close>: fails as the system decides or when no file is there, else gives the content.\<close>

definition os_Open :: "env \<Rightarrow> (path \<rightharpoonup> bytes) \<Rightarrow> path \<Rightarrow> error + bytes" where
  "os_Open e fs p =
     (case Open_fault e p of
        Some err \<Rightarrow> Inl err
      | None \<Rightarrow>
         (case fs p of
            None \<Rightarrow> Inl (''open '' @ p @ '': no such file or directory'')
          | Some content \<Rightarrow> Inr content))"

text \<open>
  \<open>output.ReadFrom(input)\<close>: \<open>written\<close> is what the output handle has written so far.
  The copy appends the whole input, or, when it fails, the part copied before the failure.
\<close>

definition ReadFrom :: "env \<Rightarrow> (path \<rightharpoonup> bytes) \<Rightarrow> path \<Rightarrow> bytes \<Rightarrow> path \<Rightarrow> bytes
    \<Rightarrow> bytes \<times> (path \<rightharpoonup> bytes) \<times> error option" where
  "ReadFrom e fs out written chunk input =
     (case ReadFrom_fault e chunk of
        None \<Rightarrow> (written @ input, fs(out \<mapsto> written @ input), None)
      | Some (n, err) \<Rightarrow> (written @ take n input, fs(out \<mapsto> written @ take n input), Some err))"

definition os_MkdirAll :: "env \<Rightarrow> world \<Rightarrow> path \<Rightarrow> error option \<times> world" where
  "os_MkdirAll e w p =
     (case MkdirAll_fault e p of
        Some err \<Rightarrow> (Some err, w)
      | None \<Rightarrow> (None, w\<lparr>dirs := insert p (dirs w)\<rparr>))"

definition os_Remove :: "env \<Rightarrow> world \<Rightarrow> path \<Rightarrow> error option \<times> world" where
  "os_Remove e w p =
     (case Remove_fault e p of
        Some err \<Rightarrow> (Some err, w)
      | None \<Rightarrow>
         (case files w p of
            Some content \<Rightarrow> (None, w\<lparr>files := (files w)(p := None)\<rparr>)
          | None \<Rightarrow>
             if p \<in> dirs w then (None, w\<lparr>dirs := dirs w - {p}\<rparr>)
             else (Some (''remove '' @ p @ '': no such file or directory''), w)))"

subsection \<open>Running the encoder\<close>

text \<open>The decimal digits of a number, as \<open>strconv.Itoa\<close> writes them.\<close>

function itoa :: "nat \<Rightarrow> string" where
  "itoa n = (if n < 10 then [''0123456789'' ! n]
             else itoa (n div 10) @ [''0123456789'' ! (n mod 10)])"
  by pat_completeness auto
termination
  by (relation "measure id") auto

text \<open>
  \<open>Cmd.CombinedOutput\<close>: the bytes written to standard output and standard error, and
  the error of \<open>Cmd.Run\<close>, which is nil only when the command ran and exited with status 0.
\<close>

fun CombinedOutput :: "cmd_outcome \<Rightarrow> bytes \<times> error option" where
  "CombinedOutput (StartError err) = ([], Some err)"
| "CombinedOutput (ExitStatus code output) =
     (output, if code = 0 then None else Some (''exit status '' @ itoa code))"
| "CombinedOutput (Signaled name output) = (output, Some (''signal: '' @ name))"

subsection \<open>Merging the chunks\<close>

text \<open>
  The loop of \<open>mergeChunks\<close> over the sorted chunk names. It returns at the first chunk
  that cannot be opened or copied, leaving the output file as written so far.
\<close>

fun copy_chunks :: "env \<Rightarrow> (path \<rightharpoonup> bytes) \<Rightarrow> path \<Rightarrow> bytes \<Rightarrow> path list
    \<Rightarrow> error option \<times> (path \<rightharpoonup> bytes)" where
  "copy_chunks e fs out written [] = (None, fs)"
| "copy_chunks e fs out written (chunk # rest) =
     (case os_Open e fs chunk of
        Inl err \<Rightarrow> (Some (''failed to open chunk: '' @ err), fs)
      | Inr input \<Rightarrow>
         (case ReadFrom e fs out written chunk input of
            (written', fs', Some err) \<Rightarrow>
              (Some (''failed to write chunk '' @ chunk @ '' to merged file: '' @ err), fs')
          | (written', fs', None) \<Rightarrow> copy_chunks e fs' out written' rest))"

text \<open>The closure given to \<open>sort.Slice\<close>, on the elements it compares.\<close>

definition less_chunks :: "path \<Rightarrow> path \<Rightarrow> bool" where
  "less_chunks a b \<longleftrightarrow> extractNumber a < extractNumber b"

definition mergeChunks :: "env \<Rightarrow> world \<Rightarrow> string \<Rightarrow> path \<Rightarrow> error option \<times> world" where
  "mergeChunks e w inputDir outputFile =
     (case filepath_Glob e (filepath_Join e inputDir ''*.chunk'') of
        (chunks, Some err) \<Rightarrow> (Some (''failed to find chunks: '' @ err), w)
      | (chunks, None) \<Rightarrow>
         (let sorted_chunks = sort_Slice e less_chunks chunks
          in case os_Create e (files w) outputFile of
               Inl err \<Rightarrow> (Some (''failed to create output file: '' @ err), w)
             | Inr fs \<Rightarrow>
                (case copy_chunks e fs outputFile [] sorted_chunks of
                   (err, fs') \<Rightarrow> (err, w\<lparr>files := fs'\<rparr>))))"

subsection \<open>The pipeline\<close>

text \<open>The two lines \<open>vc.logError(*task, message, err); return err\<close> of every failing stage.\<close>

definition report :: "env \<Rightarrow> world \<Rightarrow> VideoTask \<Rightarrow> string \<Rightarrow> error
    \<Rightarrow> panic + (error option \<times> world)" where
  "report e w task message err =
     (case logError e w task message (Some err) of
        Inl p \<Rightarrow> Inl p
      | Inr w' \<Rightarrow> Inr (Some err, w'))"

text \<open>The two paths \<open>processVideo\<close> derives from the task.\<close>

definition mergedFile_of :: "env \<Rightarrow> VideoTask \<Rightarrow> path" where
  "mergedFile_of e task = filepath_Join e (Path task) ''merged.mp4''"

definition mpegDashPath_of :: "env \<Rightarrow> VideoTask \<Rightarrow> path" where
  "mpegDashPath_of e task = filepath_Join e (Path task) ''mpeg-dash''"

definition ffmpegCmd :: "env \<Rightarrow> path \<Rightarrow> path \<Rightarrow> string list" where
  "ffmpegCmd e mergedFile mpegDashPath =
     [''ffmpeg'', ''-i'', mergedFile, ''-f'', ''dash'', filepath_Join e mpegDashPath ''output.mpd'']"

definition processVideo :: "env \<Rightarrow> world \<Rightarrow> VideoTask \<Rightarrow> panic + (error option \<times> world)" where
  "processVideo e w task =
     (let mergedFile = filepath_Join e (Path task) ''merged.mp4'';
          mpegDashPath = filepath_Join e (Path task) ''mpeg-dash'';
          w1 = slog_Info w ''Merging chunks'' [(''path'', SlogString (Path task))]
      in case mergeChunks e w1 (Path task) mergedFile of
           (Some err, w2) \<Rightarrow> report e w2 task ''failed to merge chunks'' err
         | (None, w2) \<Rightarrow>
            (let w3 = slog_Info w2 ''Creating mpeg-dash dir'' [(''path'', SlogString (Path task))]
             in case os_MkdirAll e w3 mpegDashPath of
                  (Some err, w4) \<Rightarrow> report e w4 task ''failed to create mpeg-dash directory'' err
                | (None, w4) \<Rightarrow>
                   (let w5 = slog_Info w4 ''Converting video to mpeg-dash''
                               [(''path'', SlogString (Path task))]
                    in case run_command e (ffmpegCmd e mergedFile mpegDashPath) (files w5) of
                         (outcome, fs) \<Rightarrow>
                           (let w6 = w5\<lparr>files := fs\<rparr>
                            in case CombinedOutput outcome of
                                 (output, Some err) \<Rightarrow>
                                   report e w6 task
                                     (''failed to convert video to mpeg-dash, output: '' @ output) err
                               | (output, None) \<Rightarrow>
                                  (let w7 = slog_Info w6 ''Video convert to mpeg-dash''
                                              [(''path'', SlogString mpegDashPath)];
                                       w8 = slog_Info w7 ''Removing merged file''
                                              [(''path'', SlogString mergedFile)]
                                   in case os_Remove e w8 mergedFile of
                                        (Some err, w9) \<Rightarrow>
                                          report e w9 task ''failed to remove merged file'' err
                                      | (None, w9) \<Rightarrow> Inr (None, w9))))))"

definition Handle :: "env \<Rightarrow> world \<Rightarrow> bytes \<Rightarrow> panic + world" where
  "Handle e w msg =
     (case json_Unmarshal e msg \<lparr>VideoID = 0, Path = []\<rparr> of
        (task, Some err) \<Rightarrow> logError e w task ''failed to unmarshal task'' (Some err)
      | (task, None) \<Rightarrow>
         (case processVideo e w task of
            Inl p \<Rightarrow> Inl p
          | Inr (Some err, w') \<Rightarrow> logError e w' task ''failed to process video'' (Some err)
          | Inr (None, w') \<Rightarrow> Inr w'))"

subsection \<open>The idempotency store and the error log\<close>

definition isProcessedQuery :: string where
  "isProcessedQuery =
     ''SELECT EXISTS(SELECT 1 FROM processed_videos where video_id = $1 and status='' @ [CHR 0x27]
       @ ''success'' @ [CHR 0x27] @ '')''"

definition markProcessQuery :: string where
  "markProcessQuery =
     ''INSERT INTO processed_videos (video_id, status, processed_at) values ($1, $2, $3)''"

definition registerErrorQuery :: string where
  "registerErrorQuery =
     ''INSERT INTO process_errors_log (error_details, created_at) VALUES ($1, $2)''"

text \<open>Every statement is recorded; it fails when the driver answers it with an error.\<close>

definition run_statement :: "sql_DB \<Rightarrow> string \<Rightarrow> error option \<times> sql_DB" where
  "run_statement d query = (db_fault d query, d\<lparr>statements := statements d @ [query]\<rparr>)"

definition IsProcessed :: "world \<Rightarrow> db_ptr \<Rightarrow> int \<Rightarrow> panic + (bool \<times> world)" where
  "IsProcessed w db videoID =
     (case db of
        NilDB \<Rightarrow> Inl NilPointerDereference
      | DB \<Rightarrow>
         (case run_statement (database w) isProcessedQuery of
            (Some err, d) \<Rightarrow>
              Inr (False, slog_Error (w\<lparr>database := d\<rparr>) ''Error checking if video is processed''
                            [(''video_id'', SlogInt videoID)])
          | (None, d) \<Rightarrow>
              Inr (list_ex (\<lambda>(vid, status, t). vid = videoID \<and> status = ''success'')
                     (processed_videos d),
                   w\<lparr>database := d\<rparr>)))"

definition MarkProcess :: "env \<Rightarrow> world \<Rightarrow> db_ptr \<Rightarrow> int \<Rightarrow> panic + (error option \<times> world)" where
  "MarkProcess e w db videoID =
     (case db of
        NilDB \<Rightarrow> Inl NilPointerDereference
      | DB \<Rightarrow>
         (case run_statement (database w) markProcessQuery of
            (Some err, d) \<Rightarrow>
              Inr (Some err, slog_Error (w\<lparr>database := d\<rparr>) ''Error marking video as processed''
                               [(''video_id'', SlogInt videoID)])
          | (None, d) \<Rightarrow>
              Inr (None, w\<lparr>database := d\<lparr>processed_videos :=
                     processed_videos d @ [(videoID, ''success'', time_Now e)]\<rparr>\<rparr>)))"

definition RegisterError :: "env \<Rightarrow> world \<Rightarrow> db_ptr \<Rightarrow> errorData \<Rightarrow> error option \<Rightarrow> panic + world" where
  "RegisterError e w db errorData err =
     (let serializedError = json_Marshal errorData
      in case db of
           NilDB \<Rightarrow> Inl NilPointerDereference
         | DB \<Rightarrow>
            (case run_statement (database w) registerErrorQuery of
               (Some dbErr, d) \<Rightarrow>
                 Inr (slog_Error (w\<lparr>database := d\<rparr>) ''Error storing error log in database''
                        [(''error'', SlogString dbErr)])
             | (None, d) \<Rightarrow>
                 (case err of
                    None \<Rightarrow> Inl NilPointerDereference
                  | Some details \<Rightarrow>
                      Inr (slog_Info
                             (w\<lparr>database := d\<lparr>process_errors_log :=
                                process_errors_log d @ [(serializedError, time_Now e)]\<rparr>\<rparr>)
                             ''Error log stored successfully'' [(''error'', SlogString details)]))))"

subsection \<open>Reading the file system\<close>

definition content_of :: "(path \<rightharpoonup> bytes) \<Rightarrow> path \<Rightarrow> bytes" where
  "content_of fs p = (case fs p of None \<Rightarrow> [] | Some content \<Rightarrow> content)"

subsection \<open>The sort of the Go standard library\<close>

text \<open>
  \<open>sort.Slice\<close> as the Go standard library implements it since Go 1.19 (file
  \<open>zsortfunc.go\<close> of package \<open>sort\<close>): a pattern-defeating quicksort over the index range
  \<open>[a, b)\<close> of the slice. The slice is a list, an index a Go \<open>int\<close>; \<open>data.Less(i, j)\<close>
  compares the elements now at \<open>i\<close> and \<open>j\<close> and \<open>data.Swap(i, j)\<close> exchanges them. The
  library keeps every index within the slice. Each \<open>for\<close> loop is a recursive function
  of the variables the loop changes. The divisions are of non-negative numbers.
\<close>

text \<open>Ranges of at most 12 elements are sorted by insertion.\<close>

definition data_Less :: "('a \<Rightarrow> 'a \<Rightarrow> bool) \<Rightarrow> 'a list \<Rightarrow> int \<Rightarrow> int \<Rightarrow> bool" where
  "data_Less lt data i j \<longleftrightarrow> lt (data ! nat i) (data ! nat j)"

definition data_Swap :: "'a list \<Rightarrow> int \<Rightarrow> int \<Rightarrow> 'a list" where
  "data_Swap data i j = data[nat i := data ! nat j, nat j := data ! nat i]"

function insertion_inner :: "('a \<Rightarrow> 'a \<Rightarrow> bool) \<Rightarrow> 'a list \<Rightarrow> int \<Rightarrow> int \<Rightarrow> 'a list" where
  "insertion_inner lt data a j =
     (if j > a \<and> data_Less lt data j (j - 1)
      then insertion_inner lt (data_Swap data j (j - 1)) a (j - 1)
      else data)"
  by pat_completeness auto
termination
  by (relation "measure (\<lambda>(lt, data, a, j). nat (j - a))") auto

function insertion_outer :: "('a \<Rightarrow> 'a \<Rightarrow> bool) \<Rightarrow> 'a list \<Rightarrow> int \<Rightarrow> int \<Rightarrow> int \<Rightarrow> 'a list" where
  "insertion_outer lt data a b i =
     (if i < b then insertion_outer lt (insertion_inner lt data a i) a b (i + 1) else data)"
  by pat_completeness auto
termination
  by (relation "measure (\<lambda>(lt, data, a, b, i). nat (b - i))") auto

definition insertionSort_func :: "('a \<Rightarrow> 'a \<Rightarrow> bool) \<Rightarrow> 'a list \<Rightarrow> int \<Rightarrow> int \<Rightarrow> 'a list" where
  "insertionSort_func lt data a b = insertion_outer lt data a b (a + 1)"

text \<open>The heap sort, the fallback once \<open>limit\<close> bad pivots have been chosen.\<close>

function siftDown_loop :: "('a \<Rightarrow> 'a \<Rightarrow> bool) \<Rightarrow> 'a list \<Rightarrow> nat \<Rightarrow> int \<Rightarrow> nat \<Rightarrow> 'a list" where
  "siftDown_loop lt data hi first root =
     (let child = 2 * root + 1 in
      if child \<ge> hi then data
      else let child = (if child + 1 < hi
                           \<and> data_Less lt data (first + int child) (first + int child + 1)
                        then child + 1 else child) in
           if \<not> data_Less lt data (first + int root) (first + int child) then data
           else siftDown_loop lt (data_Swap data (first + int root) (first + int child)) hi first child)"
  by pat_completeness auto
termination
  by (relation "measure (\<lambda>(lt, data, hi, first, root). hi - root)") (auto simp: Let_def)

definition siftDown_func :: "('a \<Rightarrow> 'a \<Rightarrow> bool) \<Rightarrow> 'a list \<Rightarrow> nat \<Rightarrow> nat \<Rightarrow> int \<Rightarrow> 'a list" where
  "siftDown_func lt data lo hi first = siftDown_loop lt data hi first lo"

fun heap_build :: "('a \<Rightarrow> 'a \<Rightarrow> bool) \<Rightarrow> 'a list \<Rightarrow> nat \<Rightarrow> int \<Rightarrow> nat \<Rightarrow> 'a list" where
  "heap_build lt data hi first 0 = data"
| "heap_build lt data hi first (Suc i) = heap_build lt (siftDown_func lt data i hi first) hi first i"

fun heap_pop :: "('a \<Rightarrow> 'a \<Rightarrow> bool) \<Rightarrow> 'a list \<Rightarrow> int \<Rightarrow> nat \<Rightarrow> 'a list" where
  "heap_pop lt data first 0 = data"
| "heap_pop lt data first (Suc i) =
     heap_pop lt (siftDown_func lt (data_Swap data first (first + int i)) 0 i first) first i"

definition heapSort_func :: "('a \<Rightarrow> 'a \<Rightarrow> bool) \<Rightarrow> 'a list \<Rightarrow> int \<Rightarrow> int \<Rightarrow> 'a list" where
  "heapSort_func lt data a b =
     (let first = a; hi = nat (b - a);
          data = heap_build lt data hi first (Suc ((hi - 1) div 2))
      in heap_pop lt data first hi)"

text \<open>
  The two partitions. \<open>scan_up\<close> and \<open>scan_down\<close> are the inner loops
  \<open>for i <= j && ... { i++ }\<close> and \<open>for i <= j && ... { j-- }\<close>.
\<close>

function scan_up :: "(int \<Rightarrow> bool) \<Rightarrow> int \<Rightarrow> int \<Rightarrow> int" where
  "scan_up P i j = (if i \<le> j \<and> P i then scan_up P (i + 1) j else i)"
  by pat_completeness auto
termination
  by (relation "measure (\<lambda>(P, i, j). nat (j + 1 - i))") auto

function scan_down :: "(int \<Rightarrow> bool) \<Rightarrow> int \<Rightarrow> int \<Rightarrow> int" where
  "scan_down P i j = (if i \<le> j \<and> P j then scan_down P i (j - 1) else j)"
  by pat_completeness auto
termination
  by (relation "measure (\<lambda>(P, i, j). nat (j + 1 - i))") auto

declare scan_up.simps [simp del]
declare scan_down.simps [simp del]

function partition_loop :: "('a \<Rightarrow> 'a \<Rightarrow> bool) \<Rightarrow> 'a list \<Rightarrow> int \<Rightarrow> int \<Rightarrow> int \<Rightarrow> 'a list \<times> int" where
  "partition_loop lt data a i j =
     (let i = scan_up (\<lambda>i. data_Less lt data i a) i j;
          j = scan_down (\<lambda>j. \<not> data_Less lt data j a) i j
      in if i > j then (data, j)
         else partition_loop lt (data_Swap data i j) a (i + 1) (j - 1))"
  by pat_completeness auto
termination
proof -
  have up_ge: "i \<le> scan_up P i j" for P i j
  proof (induction P i j rule: scan_up.induct)
    case (1 P i j)
    show ?case
    proof (cases "i \<le> j \<and> P i")
      case True
      have "scan_up P i j = scan_up P (i + 1) j"
        by (simp add: scan_up.simps [of P i j] True)
      moreover have "i + 1 \<le> scan_up P (i + 1) j" using 1 True by blast
      ultimately show ?thesis by linarith
    next
      case False
      have "scan_up P i j = i"
        by (simp add: scan_up.simps [of P i j] False)
      then show ?thesis by simp
    qed
  qed
  have down_le: "scan_down P i j \<le> j" for P i j
  proof (induction P i j rule: scan_down.induct)
    case (1 P i j)
    show ?case
    proof (cases "i \<le> j \<and> P j")
      case True
      have "scan_down P i j = scan_down P i (j - 1)"
        by (simp add: scan_down.simps [of P i j] True)
      moreover have "scan_down P i (j - 1) \<le> j - 1" using 1 True by blast
      ultimately show ?thesis by linarith
    next
      case False
      have "scan_down P i j = j"
        by (simp add: scan_down.simps [of P i j] False)
      then show ?thesis by simp
    qed
  qed
  show ?thesis
  proof (relation "measure (\<lambda>(lt, data, a, i, j). nat (j + 1 - i))", goal_cases)
    case 1
    show ?case by simp
  next
    case (2 lt data a i j i' j')
    have "i \<le> i'" using 2(1) up_ge by simp
    moreover have "j' \<le> j" using 2(2) down_le by simp
    ultimately show ?case using 2(3) by simp
  qed
qed

declare partition_loop.simps [simp del]

definition partition_func :: "('a \<Rightarrow> 'a \<Rightarrow> bool) \<Rightarrow> 'a list \<Rightarrow> int \<Rightarrow> int \<Rightarrow> int \<Rightarrow> 'a list \<times> int \<times> bool" where
  "partition_func lt data a b pivot =
     (let data = data_Swap data a pivot;
          i = a + 1; j = b - 1;
          i = scan_up (\<lambda>i. data_Less lt data i a) i j;
          j = scan_down (\<lambda>j. \<not> data_Less lt data j a) i j
      in if i > j then (data_Swap data j a, j, True)
         else let data = data_Swap data i j;
                  (data, j) = partition_loop lt data a (i + 1) (j - 1)
              in (data_Swap data j a, j, False))"

function partitionEqual_loop :: "('a \<Rightarrow> 'a \<Rightarrow> bool) \<Rightarrow> 'a list \<Rightarrow> int \<Rightarrow> int \<Rightarrow> int \<Rightarrow> 'a list \<times> int" where
  "partitionEqual_loop lt data a i j =
     (let i = scan_up (\<lambda>i. \<not> data_Less lt data a i) i j;
          j = scan_down (\<lambda>j. data_Less lt data a j) i j
      in if i > j then (data, i)
         else partitionEqual_loop lt (data_Swap data i j) a (i + 1) (j - 1))"
  by pat_completeness auto
termination
proof -
  have up_ge: "i \<le> scan_up P i j" for P i j
  proof (induction P i j rule: scan_up.induct)
    case (1 P i j)
    show ?case
    proof (cases "i \<le> j \<and> P i")
      case True
      have "scan_up P i j = scan_up P (i + 1) j"
        by (simp add: scan_up.simps [of P i j] True)
      moreover have "i + 1 \<le> scan_up P (i + 1) j" using 1 True by blast
      ultimately show ?thesis by linarith
    next
      case False
      have "scan_up P i j = i"
        by (simp add: scan_up.simps [of P i j] False)
      then show ?thesis by simp
    qed
  qed
  have down_le: "scan_down P i j \<le> j" for P i j
  proof (induction P i j rule: scan_down.induct)
    case (1 P i j)
    show ?case
    proof (cases "i \<le> j \<and> P j")
      case True
      have "scan_down P i j = scan_down P i (j - 1)"
        by (simp add: scan_down.simps [of P i j] True)
      moreover have "scan_down P i (j - 1) \<le> j - 1" using 1 True by blast
      ultimately show ?thesis by linarith
    next
      case False
      have "scan_down P i j = j"
        by (simp add: scan_down.simps [of P i j] False)
      then show ?thesis by simp
    qed
  qed
  show ?thesis
  proof (relation "measure (\<lambda>(lt, data, a, i, j). nat (j + 1 - i))", goal_cases)
    case 1
    show ?case by simp
  next
    case (2 lt data a i j i' j')
    have "i \<le> i'" using 2(1) up_ge by simp
    moreover have "j' \<le> j" using 2(2) down_le by simp
    ultimately show ?case using 2(3) by simp
  qed
qed

declare partitionEqual_loop.simps [simp del]

definition partitionEqual_func :: "('a \<Rightarrow> 'a \<Rightarrow> bool) \<Rightarrow> 'a list \<Rightarrow> int \<Rightarrow> int \<Rightarrow> int \<Rightarrow> 'a list \<times> int" where
  "partitionEqual_func lt data a b pivot =
     partitionEqual_loop lt (data_Swap data a pivot) a (a + 1) (b - 1)"

text \<open>The partial insertion sort, tried on a range that looks sorted.\<close>

function unordered_from :: "('a \<Rightarrow> 'a \<Rightarrow> bool) \<Rightarrow> 'a list \<Rightarrow> int \<Rightarrow> int \<Rightarrow> int" where
  "unordered_from lt data b i =
     (if i < b \<and> \<not> data_Less lt data i (i - 1) then unordered_from lt data b (i + 1) else i)"
  by pat_completeness auto
termination
  by (relation "measure (\<lambda>(lt, data, b, i). nat (b - i))") auto

function shift_left :: "('a \<Rightarrow> 'a \<Rightarrow> bool) \<Rightarrow> 'a list \<Rightarrow> int \<Rightarrow> 'a list" where
  "shift_left lt data j =
     (if j \<ge> 1 then
        if \<not> data_Less lt data j (j - 1) then data
        else shift_left lt (data_Swap data j (j - 1)) (j - 1)
      else data)"
  by pat_completeness auto
termination
  by (relation "measure (\<lambda>(lt, data, j). nat j)") auto

function shift_right :: "('a \<Rightarrow> 'a \<Rightarrow> bool) \<Rightarrow> 'a list \<Rightarrow> int \<Rightarrow> int \<Rightarrow> 'a list" where
  "shift_right lt data b j =
     (if j < b then
        if \<not> data_Less lt data j (j - 1) then data
        else shift_right lt (data_Swap data j (j - 1)) b (j + 1)
      else data)"
  by pat_completeness auto
termination
  by (relation "measure (\<lambda>(lt, data, b, j). nat (b - j))") auto

declare unordered_from.simps [simp del]
declare shift_left.simps [simp del]
declare shift_right.simps [simp del]

definition maxSteps :: nat where
  "maxSteps = 5"

definition shortestShifting :: int where
  "shortestShifting = 50"

fun partialInsertion_steps :: "('a \<Rightarrow> 'a \<Rightarrow> bool) \<Rightarrow> 'a list \<Rightarrow> int \<Rightarrow> int \<Rightarrow> int \<Rightarrow> nat \<Rightarrow> 'a list \<times> bool" where
  "partialInsertion_steps lt data a b i 0 = (data, False)"
| "partialInsertion_steps lt data a b i (Suc steps) =
     (let i = unordered_from lt data b i in
      if i = b then (data, True)
      else if b - a < shortestShifting then (data, False)
      else let data = data_Swap data i (i - 1);
               data = (if i - a \<ge> 2 then shift_left lt data (i - 1) else data);
               data = (if b - i \<ge> 2 then shift_right lt data b (i + 1) else data)
           in partialInsertion_steps lt data a b i steps)"

definition partialInsertionSort_func :: "('a \<Rightarrow> 'a \<Rightarrow> bool) \<Rightarrow> 'a list \<Rightarrow> int \<Rightarrow> int \<Rightarrow> 'a list \<times> bool" where
  "partialInsertionSort_func lt data a b = partialInsertion_steps lt data a b (a + 1) maxSteps"

text \<open>
  The pattern breaker, run after an unbalanced partition has left a range of more than 12
  elements: three swaps at positions drawn from a xorshift generator seeded with the
  length of the range.
\<close>

fun bits_Len :: "nat \<Rightarrow> nat" where
  "bits_Len n = (if n = 0 then 0 else Suc (bits_Len (n div 2)))"

declare bits_Len.simps [simp del]

definition xorshift_Next :: "64 word \<Rightarrow> 64 word" where
  "xorshift_Next r =
     (let r = r XOR push_bit 13 r;
          r = r XOR drop_bit 7 r;
          r = r XOR push_bit 17 r
      in r)"

definition nextPowerOfTwo :: "int \<Rightarrow> 64 word" where
  "nextPowerOfTwo len = push_bit (bits_Len (nat len)) 1"

fun breakPatterns_swaps :: "'a list \<Rightarrow> int \<Rightarrow> int \<Rightarrow> 64 word \<Rightarrow> int \<Rightarrow> 64 word \<Rightarrow> int \<Rightarrow> nat \<Rightarrow> 'a list" where
  "breakPatterns_swaps data a len modulus idx random i 0 = data"
| "breakPatterns_swaps data a len modulus idx random i (Suc n) =
     (let random = xorshift_Next random;
          other = uint (random AND (modulus - 1));
          other = (if other \<ge> len then other - len else other)
      in breakPatterns_swaps (data_Swap data (idx - 1 + i) (a + other)) a len modulus idx random (i + 1) n)"

definition breakPatterns_func :: "'a list \<Rightarrow> int \<Rightarrow> int \<Rightarrow> 'a list" where
  "breakPatterns_func data a b =
     (let len = b - a in
      if len \<ge> 8 then
        let random = word_of_int len;
            modulus = nextPowerOfTwo len;
            idx = a + (len div 4) * 2 - 1
        in breakPatterns_swaps data a len modulus idx random 0 3
      else data)"

text \<open>The choice of the pivot: a median of three, of three medians from 50 elements on.\<close>

datatype sortedHint = unknownHint | increasingHint | decreasingHint

definition order2_func :: "('a \<Rightarrow> 'a \<Rightarrow> bool) \<Rightarrow> 'a list \<Rightarrow> int \<Rightarrow> int \<Rightarrow> nat \<Rightarrow> int \<times> int \<times> nat" where
  "order2_func lt data a b swaps =
     (if data_Less lt data b a then (b, a, swaps + 1) else (a, b, swaps))"

definition median_func :: "('a \<Rightarrow> 'a \<Rightarrow> bool) \<Rightarrow> 'a list \<Rightarrow> int \<Rightarrow> int \<Rightarrow> int \<Rightarrow> nat \<Rightarrow> int \<times> nat" where
  "median_func lt data a b c swaps =
     (let (a, b, swaps) = order2_func lt data a b swaps;
          (b, c, swaps) = order2_func lt data b c swaps;
          (a, b, swaps) = order2_func lt data a b swaps
      in (b, swaps))"

definition medianAdjacent_func :: "('a \<Rightarrow> 'a \<Rightarrow> bool) \<Rightarrow> 'a list \<Rightarrow> int \<Rightarrow> nat \<Rightarrow> int \<times> nat" where
  "medianAdjacent_func lt data a swaps = median_func lt data (a - 1) a (a + 1) swaps"

definition shortestNinther :: int where
  "shortestNinther = 50"

definition maxSwaps :: nat where
  "maxSwaps = 4 * 3"

definition choosePivot_func :: "('a \<Rightarrow> 'a \<Rightarrow> bool) \<Rightarrow> 'a list \<Rightarrow> int \<Rightarrow> int \<Rightarrow> int \<times> sortedHint" where
  "choosePivot_func lt data a b =
     (let l = b - a;
          swaps = 0;
          i = a + l div 4 * 1;
          j = a + l div 4 * 2;
          k = a + l div 4 * 3;
          (j, swaps) =
            (if l \<ge> 8 then
               let (i, j, k, swaps) =
                     (if l \<ge> shortestNinther then
                        let (i, swaps) = medianAdjacent_func lt data i swaps;
                            (j, swaps) = medianAdjacent_func lt data j swaps;
                            (k, swaps) = medianAdjacent_func lt data k swaps
                        in (i, j, k, swaps)
                      else (i, j, k, swaps))
               in median_func lt data i j k swaps
             else (j, swaps))
      in if swaps = 0 then (j, increasingHint)
         else if swaps = maxSwaps then (j, decreasingHint)
         else (j, unknownHint))"

function reverseRange_loop :: "'a list \<Rightarrow> int \<Rightarrow> int \<Rightarrow> 'a list" where
  "reverseRange_loop data i j =
     (if i < j then reverseRange_loop (data_Swap data i j) (i + 1) (j - 1) else data)"
  by pat_completeness auto
termination
  by (relation "measure (\<lambda>(data, i, j). nat (j - i))") auto

declare reverseRange_loop.simps [simp del]

definition reverseRange_func :: "'a list \<Rightarrow> int \<Rightarrow> int \<Rightarrow> 'a list" where
  "reverseRange_func data a b = reverseRange_loop data a (b - 1)"

text \<open>
  The main loop. The two flags are its local variables \<open>wasBalanced\<close> and
  \<open>wasPartitioned\<close>; a recursive call starts with both set.
\<close>

definition maxInsertion :: int where
  "maxInsertion = 12"



function pdqsort_func :: "('a \<Rightarrow> 'a \<Rightarrow> bool) \<Rightarrow> 'a list \<Rightarrow> int \<Rightarrow> int \<Rightarrow> int \<Rightarrow> bool \<Rightarrow> bool \<Rightarrow> 'a list" where
  "pdqsort_func lt data a b limit wasBalanced wasPartitioned =
     (let len = b - a in
      if len \<le> maxInsertion then insertionSort_func lt data a b
      else if limit = 0 then heapSort_func lt data a b
      else
        let (data, limit) = (if \<not> wasBalanced then (breakPatterns_func data a b, limit - 1)
                             else (data, limit));
            (pivot, hint) = choosePivot_func lt data a b;
            (data, pivot, hint) =
              (if hint = decreasingHint
               then (reverseRange_func data a b, (b - 1) - (pivot - a), increasingHint)
               else (data, pivot, hint));
            (data, sorted) =
              (if wasBalanced \<and> wasPartitioned \<and> hint = increasingHint
               then partialInsertionSort_func lt data a b
               else (data, False))
        in if sorted then data
           else if a > 0 \<and> \<not> data_Less lt data (a - 1) pivot then
             let (data, mid) = partitionEqual_func lt data a b pivot
             in pdqsort_func lt data mid b limit wasBalanced wasPartitioned
           else
             let (data, mid, alreadyPartitioned) = partition_func lt data a b pivot;
                 leftLen = mid - a; rightLen = b - mid;
                 balanceThreshold = len div 8
             in if leftLen < rightLen
                then pdqsort_func lt (pdqsort_func lt data a mid limit True True) (mid + 1) b limit
                       (leftLen \<ge> balanceThreshold) alreadyPartitioned
                else pdqsort_func lt (pdqsort_func lt data (mid + 1) b limit True True) a mid limit
                       (rightLen \<ge> balanceThreshold) alreadyPartitioned)"
  by pat_completeness auto
termination
proof -
  have up_ge: "i \<le> scan_up P i j" for P i j
  proof (induction P i j rule: scan_up.induct)
    case (1 P i j)
    show ?case
    proof (cases "i \<le> j \<and> P i")
      case True
      have "scan_up P i j = scan_up P (i + 1) j"
        by (simp add: scan_up.simps [of P i j] True)
      moreover have "i + 1 \<le> scan_up P (i + 1) j" using 1 True by blast
      ultimately show ?thesis by linarith
    next
      case False
      have "scan_up P i j = i"
        by (simp add: scan_up.simps [of P i j] False)
      then show ?thesis by simp
    qed
  qed
  have down_le: "scan_down P i j \<le> j" for P i j
  proof (induction P i j rule: scan_down.induct)
    case (1 P i j)
    show ?case
    proof (cases "i \<le> j \<and> P j")
      case True
      have "scan_down P i j = scan_down P i (j - 1)"
        by (simp add: scan_down.simps [of P i j] True)
      moreover have "scan_down P i (j - 1) \<le> j - 1" using 1 True by blast
      ultimately show ?thesis by linarith
    next
      case False
      have "scan_down P i j = j"
        by (simp add: scan_down.simps [of P i j] False)
      then show ?thesis by simp
    qed
  qed
  have down_ge: "min j (i - 1) \<le> scan_down P i j" for P i j
  proof (induction P i j rule: scan_down.induct)
    case (1 P i j)
    show ?case
    proof (cases "i \<le> j \<and> P j")
      case True
      have "scan_down P i j = scan_down P i (j - 1)"
        by (simp add: scan_down.simps [of P i j] True)
      moreover have "min (j - 1) (i - 1) \<le> scan_down P i (j - 1)" using 1 True by blast
      ultimately show ?thesis using True by linarith
    next
      case False
      have "scan_down P i j = j"
        by (simp add: scan_down.simps [of P i j] False)
      then show ?thesis by simp
    qed
  qed
  have loop_bounds:
    "a \<le> snd (partition_loop lt data a i j) \<and> snd (partition_loop lt data a i j) \<le> b - 1"
    if "a + 1 \<le> i" "a \<le> j" "j \<le> b - 1" for lt :: "'a \<Rightarrow> 'a \<Rightarrow> bool" and data a i j b
    using that
  proof (induction lt data a i j rule: partition_loop.induct)
    case (1 lt data a i j)
    define i' where "i' = scan_up (\<lambda>i. data_Less lt data i a) i j"
    define j' where "j' = scan_down (\<lambda>j. \<not> data_Less lt data j a) i' j"
    have i': "i \<le> i'" unfolding i'_def by (rule up_ge)
    have j'_le: "j' \<le> j" unfolding j'_def by (rule down_le)
    have "min j (i' - 1) \<le> j'" unfolding j'_def by (rule down_ge)
    then have j'_ge: "a \<le> j'" using i' "1.prems" by linarith
    show ?case
    proof (cases "i' > j'")
      case True
      have "partition_loop lt data a i j = (data, j')"
        by (simp add: partition_loop.simps [of lt data a i j] i'_def [symmetric]
              j'_def [symmetric] True)
      then show ?thesis using j'_ge j'_le "1.prems" by simp
    next
      case False
      have eq: "partition_loop lt data a i j
          = partition_loop lt (data_Swap data i' j') a (i' + 1) (j' - 1)"
        by (simp add: partition_loop.simps [of lt data a i j] i'_def [symmetric]
              j'_def [symmetric] False)
      have "a \<le> snd (partition_loop lt (data_Swap data i' j') a (i' + 1) (j' - 1))
          \<and> snd (partition_loop lt (data_Swap data i' j') a (i' + 1) (j' - 1)) \<le> b - 1"
      proof (rule "1.IH" [OF i'_def j'_def])
        show "\<not> j' < i'" using False by simp
        show "a + 1 \<le> i' + 1" using i' "1.prems" by linarith
        show "a \<le> j' - 1" using False i' "1.prems" by linarith
        show "j' - 1 \<le> b - 1" using j'_le "1.prems" by linarith
      qed
      then show ?thesis unfolding eq .
    qed
  qed
  have equal_loop_bound: "a + 1 \<le> snd (partitionEqual_loop lt data a i j)"
    if "a + 1 \<le> i" for lt :: "'a \<Rightarrow> 'a \<Rightarrow> bool" and data a i j
    using that
  proof (induction lt data a i j rule: partitionEqual_loop.induct)
    case (1 lt data a i j)
    define i' where "i' = scan_up (\<lambda>i. \<not> data_Less lt data a i) i j"
    define j' where "j' = scan_down (\<lambda>j. data_Less lt data a j) i' j"
    have i': "i \<le> i'" unfolding i'_def by (rule up_ge)
    show ?case
    proof (cases "i' > j'")
      case True
      have "partitionEqual_loop lt data a i j = (data, i')"
        by (simp add: partitionEqual_loop.simps [of lt data a i j] i'_def [symmetric]
              j'_def [symmetric] True)
      then show ?thesis using i' "1.prems" by simp
    next
      case False
      have eq: "partitionEqual_loop lt data a i j
          = partitionEqual_loop lt (data_Swap data i' j') a (i' + 1) (j' - 1)"
        by (simp add: partitionEqual_loop.simps [of lt data a i j] i'_def [symmetric]
              j'_def [symmetric] False)
      have "a + 1 \<le> snd (partitionEqual_loop lt (data_Swap data i' j') a (i' + 1) (j' - 1))"
      proof (rule "1.IH" [OF i'_def j'_def])
        show "\<not> j' < i'" using False by simp
        show "a + 1 \<le> i' + 1" using i' "1.prems" by linarith
      qed
      then show ?thesis unfolding eq .
    qed
  qed
  have partition_bounds: "a \<le> mid \<and> mid < b"
    if "a < b" and "partition_func lt data a b pivot = (data', mid, ap)"
    for lt :: "'a \<Rightarrow> 'a \<Rightarrow> bool" and data a b pivot data' mid ap
  proof -
    define d0 where "d0 = data_Swap data a pivot"
    define i' where "i' = scan_up (\<lambda>i. data_Less lt d0 i a) (a + 1) (b - 1)"
    define j' where "j' = scan_down (\<lambda>j. \<not> data_Less lt d0 j a) i' (b - 1)"
    have i': "a + 1 \<le> i'" unfolding i'_def by (rule up_ge)
    have j'_le: "j' \<le> b - 1" unfolding j'_def by (rule down_le)
    have "min (b - 1) (i' - 1) \<le> j'" unfolding j'_def by (rule down_ge)
    then have j'_ge: "a \<le> j'" using i' that(1) by linarith
    show ?thesis
    proof (cases "i' > j'")
      case True
      have "partition_func lt data a b pivot = (data_Swap d0 j' a, j', True)"
        by (simp add: partition_func_def Let_def d0_def [symmetric] i'_def [symmetric]
              j'_def [symmetric] True)
      then show ?thesis using that(2) j'_ge j'_le by simp
    next
      case False
      define r where "r = partition_loop lt (data_Swap d0 i' j') a (i' + 1) (j' - 1)"
      have "partition_func lt data a b pivot = (data_Swap (fst r) (snd r) a, snd r, False)"
        by (simp add: partition_func_def Let_def d0_def [symmetric] i'_def [symmetric]
              j'_def [symmetric] r_def [symmetric] False split_beta)
      then have mid: "mid = snd r" using that(2) by simp
      have "a \<le> snd r \<and> snd r \<le> b - 1" unfolding r_def
      proof (rule loop_bounds)
        show "a + 1 \<le> i' + 1" using i' by linarith
        show "a \<le> j' - 1" using False i' by linarith
        show "j' - 1 \<le> b - 1" using j'_le by linarith
      qed
      then show ?thesis unfolding mid by linarith
    qed
  qed
  have partitionEqual_bound: "a < mid"
    if "partitionEqual_func lt data a b pivot = (data', mid)"
    for lt :: "'a \<Rightarrow> 'a \<Rightarrow> bool" and data a b pivot data' mid
  proof -
    have "a + 1 \<le> snd (partitionEqual_loop lt (data_Swap data a pivot) a (a + 1) (b - 1))"
      by (rule equal_loop_bound) simp
    then show ?thesis using that by (simp add: partitionEqual_func_def)
  qed
  show ?thesis
  proof (relation "measure (\<lambda>(lt, data, a, b, limit, wasBalanced, wasPartitioned). nat (b - a))", goal_cases)
    case 1
    show ?case by simp
  next
    case (2 lt data a b limit wasBalanced wasPartitioned x xa xb y xaa xab ya xac xad yaa xae yab
            xaf xag yac xc xd yad)
    have long: "a < b" using 2(1,2) by (simp add: maxInsertion_def)
    have "partitionEqual_func lt xag a b xae = (xd, yad)" using 2(15,16) by simp
    then have "a < yad" by (rule partitionEqual_bound)
    then show ?case using long by simp
  next
    case (3 lt data a b limit wasBalanced wasPartitioned x xa xb y xaa xab ya xac xad yaa xae yab
            xaf xag yac xah xai yad xaj yae xak xal xam)
    have long: "a < b" using 3(1,2) by (simp add: maxInsertion_def)
    have "partition_func lt xag a b xae = (xai, xaj, yae)" using 3(15,16,17) by simp
    then have "a \<le> xaj \<and> xaj < b" by (rule partition_bounds [OF long])
    then show ?case by simp
  next
    case (4 lt data a b limit wasBalanced wasPartitioned x xa xb y xaa xab ya xac xad yaa xae yab
            xaf xag yac xah xai yad xaj yae xak xal xam)
    have long: "a < b" using 4(1,2) by (simp add: maxInsertion_def)
    have "partition_func lt xag a b xae = (xai, xaj, yae)" using 4(15,16,17) by simp
    then have "a \<le> xaj \<and> xaj < b" by (rule partition_bounds [OF long])
    then show ?case by simp
  next
    case (5 lt data a b limit wasBalanced wasPartitioned x xa xb y xaa xab ya xac xad yaa xae yab
            xaf xag yac xah xai yad xaj yae xak xal xam)
    have long: "a < b" using 5(1,2) by (simp add: maxInsertion_def)
    have "partition_func lt xag a b xae = (xai, xaj, yae)" using 5(15,16,17) by simp
    then have "a \<le> xaj \<and> xaj < b" by (rule partition_bounds [OF long])
    then show ?case by simp
  next
    case (6 lt data a b limit wasBalanced wasPartitioned x xa xb y xaa xab ya xac xad yaa xae yab
            xaf xag yac xah xai yad xaj yae xak xal xam)
    have long: "a < b" using 6(1,2) by (simp add: maxInsertion_def)
    have "partition_func lt xag a b xae = (xai, xaj, yae)" using 6(15,16,17) by simp
    then have "a \<le> xaj \<and> xaj < b" by (rule partition_bounds [OF long])
    then show ?case by simp
  qed
qed

declare pdqsort_func.simps [simp del]

definition go_sort_Slice :: "('a \<Rightarrow> 'a \<Rightarrow> bool) \<Rightarrow> 'a list \<Rightarrow> 'a list" where
  "go_sort_Slice lt x =
     (let len = int (length x);
          limit = int (bits_Len (nat len))
      in pdqsort_func lt x 0 len limit True True)"

subsection \<open>Sample environments\<close>

text \<open>
  A sorting function that keeps the promise of \<open>sort.Slice\<close>: an insertion sort that
  leaves equal elements in their order.
\<close>

fun insort_by :: "('a \<Rightarrow> 'a \<Rightarrow> bool) \<Rightarrow> 'a \<Rightarrow> 'a list \<Rightarrow> 'a list" where
  "insort_by lt x [] = [x]"
| "insort_by lt x (y # ys) = (if lt x y then x # y # ys else y # insort_by lt x ys)"

definition insertion_sort :: "('a \<Rightarrow> 'a \<Rightarrow> bool) \<Rightarrow> 'a list \<Rightarrow> 'a list" where
  "insertion_sort lt xs = foldl (\<lambda>acc x. insort_by lt x acc) [] xs"

text \<open>
  A task for the directory \<open>v\<close>, which holds three chunks that the glob finds out of
  order; no system call fails and the encoder exits with status 0.
\<close>

definition demo_task :: VideoTask where
  "demo_task = \<lparr>VideoID = 7, Path = ''v''\<rparr>"

definition demo_msg :: bytes where
  "demo_msg = ''{'' @ [CHR 0x22] @ ''video_id'' @ [CHR 0x22] @ '':7,'' @ [CHR 0x22] @ ''path''
     @ [CHR 0x22] @ '':'' @ [CHR 0x22] @ ''v'' @ [CHR 0x22] @ ''}''"

definition demo_env :: env where
  "demo_env =
     \<lparr>json_Unmarshal = (\<lambda>msg task. if msg = demo_msg then (demo_task, None)
                                   else (task, Some ''unexpected end of JSON input'')),
      filepath_Join = (\<lambda>dir name. dir @ ''/'' @ name),
      filepath_Glob = (\<lambda>pattern. if pattern = ''v/*.chunk''
                                  then ([''v/2.chunk'', ''v/0.chunk'', ''v/1.chunk''], None)
                                  else ([], None)),
      sort_Slice = insertion_sort,
      Create_fault = (\<lambda>p. None),
      Open_fault = (\<lambda>p. None),
      ReadFrom_fault = (\<lambda>p. None),
      MkdirAll_fault = (\<lambda>p. None),
      run_command = (\<lambda>argv fs. (ExitStatus 0 ''frame=1'', fs(''v/mpeg-dash/output.mpd'' \<mapsto> ''<MPD/>''))),
      Remove_fault = (\<lambda>p. None),
      time_Now = 1700000000\<rparr>"

definition demo_db :: sql_DB where
  "demo_db = \<lparr>processed_videos = [], process_errors_log = [], statements = [],
              db_fault = (\<lambda>query. None)\<rparr>"

definition demo_world :: world where
  "demo_world =
     \<lparr>files = [''v/2.chunk'' \<mapsto> ''C'', ''v/0.chunk'' \<mapsto> ''A'', ''v/1.chunk'' \<mapsto> ''B''],
      dirs = {''v''}, slog = [], database = demo_db\<rparr>"

text \<open>
  The directory \<open>v\<close> with two chunks, one of them numbered beyond the largest Go \<open>int\<close>.
\<close>

definition overflow_env :: env where
  "overflow_env = demo_env\<lparr>filepath_Glob :=
     (\<lambda>pattern. ([''v/1.chunk'', ''v/99999999999999999999.chunk''], None))\<rparr>"

definition overflow_world :: world where
  "overflow_world = demo_world\<lparr>files :=
     [''v/1.chunk'' \<mapsto> ''A'', ''v/99999999999999999999.chunk'' \<mapsto> ''B'']\<rparr>"

text \<open>The directory \<open>v\<close> with no chunk at all.\<close>

definition empty_env :: env where
  "empty_env = demo_env\<lparr>filepath_Glob := (\<lambda>pattern. ([], None))\<rparr>"

definition empty_world :: world where
  "empty_world = demo_world\<lparr>files := Map.empty\<rparr>"

text \<open>Three chunks of two bytes; the copy of the second fails after one byte.\<close>

definition fault_env :: env where
  "fault_env = demo_env\<lparr>ReadFrom_fault :=
     (\<lambda>p. if p = ''v/1.chunk'' then Some (1, ''no space left on device'') else None)\<rparr>"

definition fault_world :: world where
  "fault_world = demo_world\<lparr>files :=
     [''v/2.chunk'' \<mapsto> ''CC'', ''v/0.chunk'' \<mapsto> ''AA'', ''v/1.chunk'' \<mapsto> ''BB'']\<rparr>"

text \<open>
  Thirteen chunks, listed in filename order: eleven numbered 1 and two numbered 0, each
  holding the capital letter of its name. The sort is the one of the Go standard library.
\<close>

definition tie_chunks :: "path list" where
  "tie_chunks = [''v/a1.chunk'', ''v/b1.chunk'', ''v/c1.chunk'', ''v/d1.chunk'', ''v/e1.chunk'',
     ''v/f1.chunk'', ''v/g0.chunk'', ''v/h1.chunk'', ''v/i1.chunk'', ''v/j1.chunk'',
     ''v/k1.chunk'', ''v/l1.chunk'', ''v/m0.chunk'']"

definition tie_env :: env where
  "tie_env = demo_env\<lparr>filepath_Glob := (\<lambda>pattern. (tie_chunks, None)),
                       sort_Slice := go_sort_Slice\<rparr>"

definition tie_world :: world where
  "tie_world = demo_world\<lparr>files :=
     [''v/a1.chunk'' \<mapsto> ''A'', ''v/b1.chunk'' \<mapsto> ''B'', ''v/c1.chunk'' \<mapsto> ''C'',
      ''v/d1.chunk'' \<mapsto> ''D'', ''v/e1.chunk'' \<mapsto> ''E'', ''v/f1.chunk'' \<mapsto> ''F'',
      ''v/g0.chunk'' \<mapsto> ''G'', ''v/h1.chunk'' \<mapsto> ''H'', ''v/i1.chunk'' \<mapsto> ''I'',
      ''v/j1.chunk'' \<mapsto> ''J'', ''v/k1.chunk'' \<mapsto> ''K'', ''v/l1.chunk'' \<mapsto> ''L'',
      ''v/m0.chunk'' \<mapsto> ''M'']\<rparr>"

text \<open>The order in which the library's sort leaves the thirteen chunks.\<close>

definition tie_sorted :: "path list" where
  "tie_sorted = [''v/g0.chunk'', ''v/m0.chunk'', ''v/d1.chunk'', ''v/a1.chunk'', ''v/e1.chunk'',
     ''v/f1.chunk'', ''v/c1.chunk'', ''v/h1.chunk'', ''v/i1.chunk'', ''v/j1.chunk'',
     ''v/k1.chunk'', ''v/l1.chunk'', ''v/b1.chunk'']"

text \<open>The world a successful run on the sample task leaves.\<close>

definition demo_done :: world where
  "demo_done =
     \<lparr>files = [''v/2.chunk'' \<mapsto> ''C'', ''v/0.chunk'' \<mapsto> ''A'', ''v/1.chunk'' \<mapsto> ''B'',
                ''v/mpeg-dash/output.mpd'' \<mapsto> ''<MPD/>''],
      dirs = {''v'', ''v/mpeg-dash''},
      slog = [(LevelInfo, ''Merging chunks'', [(''path'', SlogString ''v'')]),
              (LevelInfo, ''Creating mpeg-dash dir'', [(''path'', SlogString ''v'')]),
              (LevelInfo, ''Converting video to mpeg-dash'', [(''path'', SlogString ''v'')]),
              (LevelInfo, ''Video convert to mpeg-dash'', [(''path'', SlogString ''v/mpeg-dash'')]),
              (LevelInfo, ''Removing merged file'', [(''path'', SlogString ''v/merged.mp4'')])],
      database = demo_db\<rparr>"

text \<open>The sample task with an encoder that exits with status 1.\<close>

definition ffmpeg_fail_env :: env where
  "ffmpeg_fail_env = demo_env\<lparr>run_command :=
     (\<lambda>argv fs. (ExitStatus 1 ''v/merged.mp4: Invalid data found when processing input'', fs))\<rparr>"

text \<open>
  A database that holds a success record for video 7 and answers every statement with an
  error.
\<close>

definition outage_world :: world where
  "outage_world = demo_world\<lparr>database :=
     \<lparr>processed_videos = [(7, ''success'', 1600000000)], process_errors_log = [], statements = [],
      db_fault = (\<lambda>query. Some ''dial tcp 127.0.0.1:5432: connect: connection refused'')\<rparr>\<rparr>"

text \<open>The world after the merge of the sample task has failed in its second copy.\<close>

definition fault_merge_failed :: world where
  "fault_merge_failed =
     \<lparr>files = [''v/2.chunk'' \<mapsto> ''CC'', ''v/0.chunk'' \<mapsto> ''AA'', ''v/1.chunk'' \<mapsto> ''BB'',
                ''v/merged.mp4'' \<mapsto> ''AAB''],
      dirs = {''v''},
      slog = [(LevelInfo, ''Merging chunks'', [(''path'', SlogString ''v'')]),
              error_record fault_env demo_task ''failed to merge chunks''
                ''failed to write chunk v/1.chunk to merged file: no space left on device''],
      database = demo_db\<rparr>"

section \<open>Properties\<close>

subsection \<open>The ordering key\<close>

lemma sorted_wrt_less_chunks:
  "sorted_wrt (\<lambda>a b. \<not> less_chunks b a) ys \<longleftrightarrow> sorted (map extractNumber ys)"
  by (simp add: sorted_map less_chunks_def not_less)

lemma isDigit_not_sign: "isDigit c \<Longrightarrow> c \<noteq> CHR ''-'' \<and> c \<noteq> CHR ''+''"
  by (auto simp: isDigit_def)

lemma FindString_digits_all: "list_all isDigit (FindString_digits s)"
  unfolding FindString_digits_def list_all_iff
  by (auto dest: set_takeWhileD)

lemma Atoi_digits:
  assumes "ds \<noteq> []" "list_all isDigit ds"
  shows "Atoi ds = (if int (decimal ds) \<le> maxInt then Inr (int (decimal ds)) else Inl ErrRange)"
proof -
  from assms have "isDigit (hd ds)"
    by (cases ds) simp_all
  then have "hd ds \<noteq> CHR ''-''" "hd ds \<noteq> CHR ''+''"
    using isDigit_not_sign by blast+
  moreover have "minInt \<le> int (decimal ds)"
    by (simp add: minInt_def)
  ultimately show ?thesis
    using assms by (simp add: Atoi_def Let_def)
qed

text \<open>
  The key the program computes, in terms of the embedded integer: the integer itself when
  it fits a Go \<open>int\<close>, and \<open>-1\<close> when there is none or it is too large.
\<close>

lemma extractNumber_embedded:
  "extractNumber c =
     (case embedded_integer c of
        None \<Rightarrow> - 1
      | Some n \<Rightarrow> if int n \<le> maxInt then int n else - 1)"
proof (cases "FindString_digits (filepath_Base c) = []")
  case True
  then show ?thesis
    by (simp add: extractNumber_def embedded_integer_def Atoi_def)
next
  case False
  then show ?thesis
    using Atoi_digits [OF False FindString_digits_all]
    by (simp add: extractNumber_def embedded_integer_def)
qed

subsection \<open>The copy loop\<close>

text \<open>
  When the loop returns no error, every chunk was there and the output file holds what
  was written before, followed by the chunks' contents in the order of the list.
\<close>

lemma copy_chunks_ok:
  assumes "copy_chunks e fs out written cs = (None, fs')"
    and "out \<notin> set cs" and "fs out = Some written"
  shows "fs' = fs(out \<mapsto> written @ concat (map (content_of fs) cs)) \<and> (\<forall>c \<in> set cs. fs c \<noteq> None)"
  using assms
proof (induction cs arbitrary: fs written)
  case Nil
  then show ?case by auto
next
  case (Cons c cs)
  from Cons.prems(1) obtain input where op: "os_Open e fs c = Inr input"
    by (auto split: sum.splits)
  then have fc: "fs c = Some input"
    by (auto simp: os_Open_def split: option.splits)
  from Cons.prems(1) op have nofault: "ReadFrom_fault e c = None"
    by (auto simp: ReadFrom_def split: option.splits prod.splits)
  let ?fs1 = "fs(out \<mapsto> written @ input)"
  from Cons.prems(1) op nofault
  have rest: "copy_chunks e ?fs1 out (written @ input) cs = (None, fs')"
    by (simp add: ReadFrom_def)
  from Cons.prems(2) have out: "out \<notin> set cs" "out \<noteq> c" by auto
  have same: "map (content_of ?fs1) cs = map (content_of fs) cs"
    using out by (auto simp: content_of_def)
  have upd: "?fs1 out = Some (written @ input)" by simp
  note ih = Cons.IH [OF rest out(1) upd]
  from ih have "fs' = ?fs1(out \<mapsto> (written @ input) @ concat (map (content_of fs) cs))"
    unfolding same by blast
  then have "fs' = fs(out \<mapsto> written @ concat (map (content_of fs) (c # cs)))"
    using fc by (simp add: content_of_def)
  moreover have "fs c' \<noteq> None" if "c' \<in> set (c # cs)" for c'
  proof (cases "c' = c")
    case True
    then show ?thesis using fc by simp
  next
    case False
    with that have "c' \<in> set cs" by simp
    with ih have "?fs1 c' \<noteq> None" by blast
    moreover from \<open>c' \<in> set cs\<close> out have "c' \<noteq> out" by auto
    ultimately show ?thesis by simp
  qed
  ultimately show ?case by blast
qed



lemma mergeChunks_ok:
  assumes glob: "filepath_Glob e (filepath_Join e inputDir ''*.chunk'') = (chunks, None)"
    and out: "outputFile \<notin> set (sort_Slice e less_chunks chunks)"
    and ok: "mergeChunks e w inputDir outputFile = (None, w')"
  shows "w' = w\<lparr>files := (files w)(outputFile \<mapsto>
            concat (map (content_of (files w)) (sort_Slice e less_chunks chunks)))\<rparr>"
proof -
  let ?cs = "sort_Slice e less_chunks chunks"
  let ?fs = "(files w)(outputFile \<mapsto> [])"
  from ok glob have cr: "os_Create e (files w) outputFile = Inr ?fs"
    by (auto simp: mergeChunks_def os_Create_def split: sum.splits option.splits)
  with ok glob obtain fs' where cp: "copy_chunks e ?fs outputFile [] ?cs = (None, fs')"
    and w': "w' = w\<lparr>files := fs'\<rparr>"
    by (auto simp: mergeChunks_def split: prod.splits)
  have "?fs outputFile = Some []" by simp
  from copy_chunks_ok [OF cp out this]
  have "fs' = ?fs(outputFile \<mapsto> [] @ concat (map (content_of ?fs) ?cs))" by blast
  moreover have "map (content_of ?fs) ?cs = map (content_of (files w)) ?cs"
    using out by (auto simp: content_of_def)
  ultimately show ?thesis using w' by simp
qed

lemma mergeChunks_frame:
  assumes "mergeChunks e w inputDir outputFile = (r, w')"
  shows "dirs w' = dirs w \<and> slog w' = slog w \<and> database w' = database w"
  using assms unfolding mergeChunks_def Let_def
  by (auto split: prod.splits option.splits sum.splits)






subsection \<open>What the pipeline leaves alone\<close>

lemma report_eq:
  "report e w task message err = Inr (Some err, w\<lparr>slog := slog w @ [error_record e task message err]\<rparr>)"
  by (simp add: report_def logError_def)

lemma os_MkdirAll_frame:
  "os_MkdirAll e w p = (r, w') \<Longrightarrow> files w' = files w \<and> slog w' = slog w \<and> database w' = database w"
  by (auto simp: os_MkdirAll_def split: option.splits)

lemma os_Remove_frame:
  "os_Remove e w p = (r, w') \<Longrightarrow> slog w' = slog w \<and> database w' = database w"
  by (auto simp: os_Remove_def split: option.splits if_splits)

lemma os_Remove_ok:
  "os_Remove e w p = (None, w') \<Longrightarrow> files w' p = None"
  by (auto simp: os_Remove_def split: option.splits if_splits)

lemma processVideo_total: "\<exists>r w'. processVideo e w task = Inr (r, w')"
  unfolding processVideo_def Let_def report_eq
  by (simp split: prod.splits option.splits)

lemma processVideo_database:
  assumes "processVideo e w task = Inr (r, w')"
  shows "database w' = database w"
  using assms unfolding processVideo_def Let_def report_eq
  by (auto simp: slog_Info_def split: prod.splits option.splits
      dest!: mergeChunks_frame os_MkdirAll_frame os_Remove_frame)

lemma processVideo_success_removed:
  assumes "processVideo e w task = Inr (None, w')"
  shows "files w' (filepath_Join e (Path task) ''merged.mp4'') = None"
  using assms unfolding processVideo_def Let_def report_eq
  by (auto split: prod.splits option.splits dest: os_Remove_ok)


lemma Handle_database:
  assumes "Handle e w msg = Inr w'"
  shows "database w' = database w"
proof (cases "json_Unmarshal e msg \<lparr>VideoID = 0, Path = []\<rparr>")
  case (Pair task err)
  show ?thesis
  proof (cases err)
    case (Some reason)
    with assms Pair show ?thesis
      by (auto simp: Handle_def logError_def)
  next
    case None
    from processVideo_total obtain r w1 where p: "processVideo e w task = Inr (r, w1)"
      by blast
    then have "database w1 = database w"
      by (rule processVideo_database)
    with assms Pair None p show ?thesis
      by (cases r) (auto simp: Handle_def logError_def)
  qed
qed

lemma Handle_total: "\<exists>w'. Handle e w msg = Inr w'"
proof (cases "json_Unmarshal e msg \<lparr>VideoID = 0, Path = []\<rparr>")
  case (Pair task err)
  show ?thesis
  proof (cases err)
    case (Some reason)
    with Pair show ?thesis
      by (simp add: Handle_def logError_def)
  next
    case None
    from processVideo_total obtain r w1 where "processVideo e w task = Inr (r, w1)"
      by blast
    with Pair None show ?thesis
      by (cases r) (simp_all add: Handle_def logError_def)
  qed
qed

subsection \<open>The encoder stage\<close>

lemma CombinedOutput_success:
  "snd (CombinedOutput outcome) = None \<longleftrightarrow> (\<exists>output. outcome = ExitStatus 0 output)"
  by (cases outcome) auto

lemma CombinedOutput_output:
  "outcome = ExitStatus code output \<Longrightarrow> fst (CombinedOutput outcome) = output"
  by simp

lemma processVideo_at_transcoder:
  assumes merge: "mergeChunks e (slog_Info w ''Merging chunks'' [(''path'', SlogString (Path task))])
        (Path task) (mergedFile_of e task) = (None, w2)"
    and mkdir: "MkdirAll_fault e (mpegDashPath_of e task) = None"
    and run: "run_command e (ffmpegCmd e (mergedFile_of e task) (mpegDashPath_of e task)) (files w2)
        = (outcome, fs)"
  shows "processVideo e w task =
    (let w6 = w2\<lparr>slog := slog w2 @
                 [(LevelInfo, ''Creating mpeg-dash dir'', [(''path'', SlogString (Path task))]),
                  (LevelInfo, ''Converting video to mpeg-dash'', [(''path'', SlogString (Path task))])],
               dirs := insert (mpegDashPath_of e task) (dirs w2), files := fs\<rparr>
     in case CombinedOutput outcome of
          (output, Some err) \<Rightarrow>
            Inr (Some err, w6\<lparr>slog := slog w6 @ [error_record e task
                   (''failed to convert video to mpeg-dash, output: '' @ output) err]\<rparr>)
        | (output, None) \<Rightarrow>
           (let w8 = w6\<lparr>slog := slog w6 @
                  [(LevelInfo, ''Video convert to mpeg-dash'', [(''path'', SlogString (mpegDashPath_of e task))]),
                   (LevelInfo, ''Removing merged file'', [(''path'', SlogString (mergedFile_of e task))])]\<rparr>
            in case os_Remove e w8 (mergedFile_of e task) of
                 (Some err, w9) \<Rightarrow> report e w9 task ''failed to remove merged file'' err
               | (None, w9) \<Rightarrow> Inr (None, w9)))"
  using merge mkdir run
  unfolding processVideo_def Let_def report_eq mergedFile_of_def mpegDashPath_of_def
  by (simp add: os_MkdirAll_def slog_Info_def split: prod.splits option.splits)


subsection \<open>The sample environments, evaluated\<close>

lemmas key_defs = extractNumber_def Atoi_def FindString_digits_def filepath_Base_def
      IsPathSeparator_def isDigit_def decimal_def digitVal_def maxInt_def minInt_def
      embedded_integer_def

lemmas io_defs = mergeChunks_def os_Create_def os_Open_def ReadFrom_def
   demo_env_def demo_world_def

lemma key_overflow: "extractNumber ''v/99999999999999999999.chunk'' = - 1"
  by (simp add: key_defs)

lemma key_0: "extractNumber ''v/0.chunk'' = 0"
  by (simp add: key_defs)

lemma key_1: "extractNumber ''v/1.chunk'' = 1"
  by (simp add: key_defs)

lemma key_2: "extractNumber ''v/2.chunk'' = 2"
  by (simp add: key_defs)

lemma key_a1: "extractNumber ''v/a1.chunk'' = 1"
  by (simp add: key_defs)

lemma key_b1: "extractNumber ''v/b1.chunk'' = 1"
  by (simp add: key_defs)

lemma key_c1: "extractNumber ''v/c1.chunk'' = 1"
  by (simp add: key_defs)

lemma key_d1: "extractNumber ''v/d1.chunk'' = 1"
  by (simp add: key_defs)

lemma key_e1: "extractNumber ''v/e1.chunk'' = 1"
  by (simp add: key_defs)

lemma key_f1: "extractNumber ''v/f1.chunk'' = 1"
  by (simp add: key_defs)

lemma key_g0: "extractNumber ''v/g0.chunk'' = 0"
  by (simp add: key_defs)

lemma key_h1: "extractNumber ''v/h1.chunk'' = 1"
  by (simp add: key_defs)

lemma key_i1: "extractNumber ''v/i1.chunk'' = 1"
  by (simp add: key_defs)

lemma key_j1: "extractNumber ''v/j1.chunk'' = 1"
  by (simp add: key_defs)

lemma key_k1: "extractNumber ''v/k1.chunk'' = 1"
  by (simp add: key_defs)

lemma key_l1: "extractNumber ''v/l1.chunk'' = 1"
  by (simp add: key_defs)

lemma key_m0: "extractNumber ''v/m0.chunk'' = 0"
  by (simp add: key_defs)

lemmas tie_keys = key_a1 key_b1 key_c1 key_d1 key_e1 key_f1 key_g0 key_h1 key_i1 key_j1 key_k1
  key_l1 key_m0

lemma sort_overflow:
  "insertion_sort less_chunks [''v/1.chunk'', ''v/99999999999999999999.chunk'']
     = [''v/99999999999999999999.chunk'', ''v/1.chunk'']"
  by (simp add: insertion_sort_def less_chunks_def key_overflow key_1)

lemma sort_demo:
  "insertion_sort less_chunks [''v/2.chunk'', ''v/0.chunk'', ''v/1.chunk'']
     = [''v/0.chunk'', ''v/1.chunk'', ''v/2.chunk'']"
  by (simp add: insertion_sort_def less_chunks_def key_0 key_1 key_2)

text \<open>On the slices of the other samples the library's sort gives what the insertion sort gives.\<close>

lemma go_sort_overflow:
  "go_sort_Slice less_chunks [''v/1.chunk'', ''v/99999999999999999999.chunk'']
     = insertion_sort less_chunks [''v/1.chunk'', ''v/99999999999999999999.chunk'']"
  unfolding sort_overflow
  by (simp add: go_sort_Slice_def Let_def pdqsort_func.simps maxInsertion_def
        insertionSort_func_def data_Less_def data_Swap_def less_chunks_def key_overflow key_1)

lemma go_sort_demo:
  "go_sort_Slice less_chunks [''v/2.chunk'', ''v/0.chunk'', ''v/1.chunk'']
     = insertion_sort less_chunks [''v/2.chunk'', ''v/0.chunk'', ''v/1.chunk'']"
  unfolding sort_demo
  by (simp add: go_sort_Slice_def Let_def pdqsort_func.simps maxInsertion_def
        insertionSort_func_def data_Less_def data_Swap_def less_chunks_def key_0 key_1 key_2)

lemma go_sort_empty: "go_sort_Slice less_chunks [] = insertion_sort less_chunks []"
  by (simp add: go_sort_Slice_def Let_def pdqsort_func.simps maxInsertion_def
        insertionSort_func_def insertion_sort_def)

text \<open>
  The run of the library's sort on the thirteen chunks: the pivot is the median of the
  elements 3, 6 and 9; one partition around it leaves two ranges of 2 and 10 elements,
  which the insertion sort does not change.
\<close>

lemma bits_Len_13: "bits_Len 13 = 4"
  by (simp add: bits_Len.simps)

lemma pivot_tie: "choosePivot_func less_chunks tie_chunks 0 13 = (3, unknownHint)"
  by (simp add: choosePivot_func_def median_func_def order2_func_def data_Less_def
        shortestNinther_def maxSwaps_def less_chunks_def tie_chunks_def tie_keys)

lemma partition_tie: "partition_func less_chunks tie_chunks 0 13 3 = (tie_sorted, 2, False)"
  by (simp add: partition_func_def Let_def data_Swap_def scan_up.simps scan_down.simps
        partition_loop.simps data_Less_def less_chunks_def tie_keys tie_chunks_def tie_sorted_def)

lemma insertion_left: "insertionSort_func less_chunks tie_sorted 0 2 = tie_sorted"
  by (simp add: insertionSort_func_def data_Less_def less_chunks_def tie_keys tie_sorted_def)

lemma insertion_right: "insertionSort_func less_chunks tie_sorted 3 13 = tie_sorted"
  by (simp add: insertionSort_func_def data_Less_def less_chunks_def tie_keys tie_sorted_def)

lemma length_tie: "length tie_chunks = 13"
  by (simp add: tie_chunks_def)

lemma sort_tie: "go_sort_Slice less_chunks tie_chunks = tie_sorted"
  by (simp add: go_sort_Slice_def Let_def length_tie bits_Len_13 pdqsort_func.simps
        maxInsertion_def pivot_tie partition_tie insertion_left insertion_right)

lemma merge_overflow:
  "mergeChunks overflow_env overflow_world ''v'' ''v/merged.mp4'' =
    (None, overflow_world\<lparr>files := (files overflow_world)(''v/merged.mp4'' \<mapsto> ''BA'')\<rparr>)"
  by (simp add: io_defs overflow_env_def overflow_world_def sort_overflow)

lemma merge_demo:
  "mergeChunks demo_env demo_world ''v'' ''v/merged.mp4'' =
    (None, demo_world\<lparr>files := (files demo_world)(''v/merged.mp4'' \<mapsto> ''ABC'')\<rparr>)"
  by (simp add: io_defs sort_demo)

lemma merge_empty:
  "mergeChunks empty_env empty_world ''v'' ''v/merged.mp4'' =
    (None, empty_world\<lparr>files := [''v/merged.mp4'' \<mapsto> []]\<rparr>)"
  by (simp add: io_defs empty_env_def empty_world_def insertion_sort_def)


lemma merge_tie:
  "mergeChunks tie_env tie_world ''v'' ''v/merged.mp4'' =
    (None, tie_world\<lparr>files := (files tie_world)(''v/merged.mp4'' \<mapsto> ''GMDAEFCHIJKLB'')\<rparr>)"
  by (simp add: io_defs tie_env_def tie_world_def sort_tie tie_sorted_def)

lemma stable_tie:
  "sort_key extractNumber tie_chunks
     = [''v/g0.chunk'', ''v/m0.chunk'', ''v/a1.chunk'', ''v/b1.chunk'', ''v/c1.chunk'',
        ''v/d1.chunk'', ''v/e1.chunk'', ''v/f1.chunk'', ''v/h1.chunk'', ''v/i1.chunk'',
        ''v/j1.chunk'', ''v/k1.chunk'', ''v/l1.chunk'']"
  by (simp add: tie_chunks_def tie_keys)

lemma post_tie: "sort_Slice_post less_chunks tie_chunks tie_sorted"
  by (simp add: sort_Slice_post_def less_chunks_def tie_chunks_def tie_sorted_def tie_keys)

lemma merge_demo_any:
  "files w = files demo_world \<Longrightarrow>
   mergeChunks demo_env w ''v'' ''v/merged.mp4'' =
    (None, w\<lparr>files := (files demo_world)(''v/merged.mp4'' \<mapsto> ''ABC'')\<rparr>)"
  by (simp add: io_defs sort_demo)

lemma process_demo: "processVideo demo_env demo_world demo_task = Inr (None, demo_done)"
proof -
  have join: "filepath_Join demo_env ''v'' ''merged.mp4'' = ''v/merged.mp4''"
    "filepath_Join demo_env ''v'' ''mpeg-dash'' = ''v/mpeg-dash''"
    by (simp_all add: demo_env_def)
  have merge: "mergeChunks demo_env (slog_Info demo_world ''Merging chunks'' [(''path'', SlogString ''v'')])
      ''v'' ''v/merged.mp4'' =
     (None, (slog_Info demo_world ''Merging chunks'' [(''path'', SlogString ''v'')])
        \<lparr>files := (files demo_world)(''v/merged.mp4'' \<mapsto> ''ABC'')\<rparr>)"
    by (rule merge_demo_any) (simp add: slog_Info_def)
  show ?thesis
    unfolding processVideo_def Let_def
    apply (simp add: demo_task_def join merge)
    apply (simp add: demo_env_def demo_world_def demo_done_def demo_task_def slog_Info_def
        os_MkdirAll_def os_Remove_def ffmpegCmd_def)
    apply (auto simp: fun_eq_iff)
    done
qed
lemma handle_demo: "Handle demo_env demo_world demo_msg = Inr demo_done"
proof -
  have "json_Unmarshal demo_env demo_msg \<lparr>VideoID = 0, Path = []\<rparr> = (demo_task, None)"
    by (simp add: demo_env_def)
  then show ?thesis
    by (simp add: Handle_def process_demo)
qed
lemma merge_ffmpeg_fail:
  "files w = files demo_world \<Longrightarrow>
   mergeChunks ffmpeg_fail_env w ''v'' ''v/merged.mp4'' =
    (None, w\<lparr>files := (files demo_world)(''v/merged.mp4'' \<mapsto> ''ABC'')\<rparr>)"
  by (simp add: io_defs ffmpeg_fail_env_def sort_demo)

lemma merge_fault_any:
  "files w = files fault_world \<Longrightarrow>
   mergeChunks fault_env w ''v'' ''v/merged.mp4'' =
    (Some ''failed to write chunk v/1.chunk to merged file: no space left on device'',
     w\<lparr>files := (files fault_world)(''v/merged.mp4'' \<mapsto> ''AAB'')\<rparr>)"
  by (simp add: io_defs fault_env_def fault_world_def sort_demo)

lemma process_fault:
  "processVideo fault_env fault_world demo_task =
     Inr (Some ''failed to write chunk v/1.chunk to merged file: no space left on device'',
          fault_merge_failed)"
proof -
  have join: "filepath_Join fault_env ''v'' ''merged.mp4'' = ''v/merged.mp4''"
    by (simp add: fault_env_def demo_env_def)
  have merge: "mergeChunks fault_env (slog_Info fault_world ''Merging chunks'' [(''path'', SlogString ''v'')])
      ''v'' ''v/merged.mp4'' =
     (Some ''failed to write chunk v/1.chunk to merged file: no space left on device'',
      (slog_Info fault_world ''Merging chunks'' [(''path'', SlogString ''v'')])
        \<lparr>files := (files fault_world)(''v/merged.mp4'' \<mapsto> ''AAB'')\<rparr>)"
    by (rule merge_fault_any) (simp add: slog_Info_def)
  show ?thesis
    unfolding processVideo_def Let_def report_eq
    apply (simp add: demo_task_def join merge)
    apply (simp add: fault_world_def demo_world_def fault_merge_failed_def demo_task_def slog_Info_def)
    done
qed

subsection \<open>Claims\<close>

text \<open>
  C1 (as amended). For chunk files whose base filenames contain an embedded decimal integer
  that fits a Go \<open>int\<close> (at most \<open>2^63 - 1\<close>), whatever the order in which the glob
  lists them, a merge that returns no error leaves an artifact that is the concatenation of
  the chunks' contents in ascending order of that integer: each listed chunk once, its
  bytes unchanged, and the chunk files themselves untouched. The sort is assumed to keep
  the promise of \<open>sort.Slice\<close>, and the artifact is not itself one of the chunks.
\<close>

theorem mergeChunks_ordered_concat:
  assumes glob: "filepath_Glob e (filepath_Join e inputDir ''*.chunk'') = (chunks, None)"
    and keys: "\<forall>c \<in> set chunks. \<exists>n. embedded_integer c = Some n \<and> int n \<le> maxInt"
    and srt: "sort_Slice_post less_chunks chunks (sort_Slice e less_chunks chunks)"
    and out: "outputFile \<notin> set chunks"
    and ok: "mergeChunks e w inputDir outputFile = (None, w')"
  shows "\<exists>ordered. mset ordered = mset chunks
           \<and> sorted (map (\<lambda>c. the (embedded_integer c)) ordered)
           \<and> files w' outputFile = Some (concat (map (content_of (files w)) ordered))
           \<and> (\<forall>c \<in> set chunks. files w' c = files w c)"
proof -
  let ?cs = "sort_Slice e less_chunks chunks"
  from srt have perm: "mset ?cs = mset chunks" and sorted: "sorted (map extractNumber ?cs)"
    by (simp_all add: sort_Slice_post_def sorted_wrt_less_chunks)
  from perm have same_set: "set ?cs = set chunks"
    by (rule mset_eq_setD)
  have key: "extractNumber c = int (the (embedded_integer c))" if "c \<in> set ?cs" for c
    using that keys same_set by (auto simp: extractNumber_embedded)
  then have "map extractNumber ?cs = map (\<lambda>c. int (the (embedded_integer c))) ?cs"
    by simp
  with sorted have "sorted (map int (map (\<lambda>c. the (embedded_integer c)) ?cs))"
    by (simp add: comp_def)
  then have asc: "sorted (map (\<lambda>c. the (embedded_integer c)) ?cs)"
    by (simp add: sorted_map sorted_wrt_map)
  from out same_set have out': "outputFile \<notin> set ?cs" by simp
  from mergeChunks_ok [OF glob out' ok]
  have w': "w' = w\<lparr>files := (files w)(outputFile \<mapsto> concat (map (content_of (files w)) ?cs))\<rparr>" .
  then have "files w' outputFile = Some (concat (map (content_of (files w)) ?cs))"
    and "\<forall>c \<in> set chunks. files w' c = files w c"
    using out by auto
  with perm asc show ?thesis by blast
qed

theorem mergeChunks_ordered_concat_witness:
  "\<exists>ordered. mset ordered = mset [''v/2.chunk'', ''v/0.chunk'', ''v/1.chunk'']
     \<and> sorted (map (\<lambda>c. the (embedded_integer c)) ordered)
     \<and> files (demo_world\<lparr>files := (files demo_world)(''v/merged.mp4'' \<mapsto> ''ABC'')\<rparr>) ''v/merged.mp4''
         = Some (concat (map (content_of (files demo_world)) ordered))
     \<and> (\<forall>c \<in> set [''v/2.chunk'', ''v/0.chunk'', ''v/1.chunk''].
           files (demo_world\<lparr>files := (files demo_world)(''v/merged.mp4'' \<mapsto> ''ABC'')\<rparr>) c
             = files demo_world c)"
proof -
  have glob: "filepath_Glob demo_env (filepath_Join demo_env ''v'' ''*.chunk'')
      = ([''v/2.chunk'', ''v/0.chunk'', ''v/1.chunk''], None)"
    by (simp add: demo_env_def)
  have keys: "\<forall>c \<in> set [''v/2.chunk'', ''v/0.chunk'', ''v/1.chunk''].
      \<exists>n. embedded_integer c = Some n \<and> int n \<le> maxInt"
    by (simp add: key_defs)
  have srt: "sort_Slice_post less_chunks [''v/2.chunk'', ''v/0.chunk'', ''v/1.chunk'']
      (sort_Slice demo_env less_chunks [''v/2.chunk'', ''v/0.chunk'', ''v/1.chunk''])"
    by (simp add: demo_env_def sort_demo sort_Slice_post_def less_chunks_def key_0 key_1 key_2)
  have out: "''v/merged.mp4'' \<notin> set [''v/2.chunk'', ''v/0.chunk'', ''v/1.chunk'']"
    by simp
  from mergeChunks_ordered_concat [OF glob keys srt out merge_demo] show ?thesis .
qed

text \<open>
  C1 as stated fails when an embedded integer does not fit a Go \<open>int\<close>: \<open>strconv.Atoi\<close>
  reports a range error and the key becomes \<open>-1\<close>. The chunk numbered
  \<open>99999999999999999999\<close> is then merged before the chunk numbered \<open>1\<close>.
\<close>

theorem mergeChunks_overflow_counterexample:
  "embedded_integer ''v/1.chunk'' = Some 1
   \<and> embedded_integer ''v/99999999999999999999.chunk'' = Some 99999999999999999999
   \<and> files overflow_world ''v/1.chunk'' = Some ''A''
   \<and> files overflow_world ''v/99999999999999999999.chunk'' = Some ''B''
   \<and> fst (mergeChunks overflow_env overflow_world ''v'' ''v/merged.mp4'') = None
   \<and> files (snd (mergeChunks overflow_env overflow_world ''v'' ''v/merged.mp4'')) ''v/merged.mp4''
       = Some ''BA''"
  by (simp add: merge_overflow) (simp add: key_defs overflow_world_def demo_world_def)

text \<open>
  C3 (as amended). When the glob finds no chunk, the merge does not fail for that reason:
  it creates an empty artifact and returns no error; it fails only when the artifact
  cannot be created.
\<close>

theorem mergeChunks_empty_succeeds:
  assumes glob: "filepath_Glob e (filepath_Join e inputDir ''*.chunk'') = ([], None)"
    and srt: "sort_Slice_post less_chunks [] (sort_Slice e less_chunks [])"
  shows "mergeChunks e w inputDir outputFile =
     (case Create_fault e outputFile of
        None \<Rightarrow> (None, w\<lparr>files := (files w)(outputFile \<mapsto> [])\<rparr>)
      | Some err \<Rightarrow> (Some (''failed to create output file: '' @ err), w))"
proof -
  from srt have "sort_Slice e less_chunks [] = []"
    by (simp add: sort_Slice_post_def)
  with glob show ?thesis
    by (simp add: mergeChunks_def os_Create_def split: option.splits)
qed

theorem mergeChunks_empty_succeeds_witness:
  "mergeChunks empty_env empty_world ''v'' ''v/merged.mp4''
     = (None, empty_world\<lparr>files := (files empty_world)(''v/merged.mp4'' \<mapsto> [])\<rparr>)"
proof -
  have glob: "filepath_Glob empty_env (filepath_Join empty_env ''v'' ''*.chunk'') = ([], None)"
    by (simp add: empty_env_def)
  have srt: "sort_Slice_post less_chunks [] (sort_Slice empty_env less_chunks [])"
    by (simp add: empty_env_def demo_env_def insertion_sort_def sort_Slice_post_def)
  have "Create_fault empty_env ''v/merged.mp4'' = None"
    by (simp add: empty_env_def demo_env_def)
  with mergeChunks_empty_succeeds [OF glob srt, of empty_world "''v/merged.mp4''"]
  show ?thesis by simp
qed

text \<open>
  C3 as stated fails: with an empty directory the merge returns no error, and an artifact
  that was not there before exists afterwards, empty.
\<close>

theorem mergeChunks_empty_counterexample:
  "filepath_Glob empty_env (filepath_Join empty_env ''v'' ''*.chunk'') = ([], None)
   \<and> files empty_world ''v/merged.mp4'' = None
   \<and> fst (mergeChunks empty_env empty_world ''v'' ''v/merged.mp4'') = None
   \<and> files (snd (mergeChunks empty_env empty_world ''v'' ''v/merged.mp4'')) ''v/merged.mp4''
       = Some []"
  by (simp add: merge_empty) (simp add: empty_env_def empty_world_def)





text \<open>
  C5 (as amended). The chunk sort orders by key only. The merged output holds every listed
  chunk once, in ascending key order: its sequence of keys is the sorted sequence of the
  listed keys, and when the keys are pairwise different the order is the one a stable sort
  gives. For chunks with equal keys nothing more holds: their order is the one
  \<open>sort.Slice\<close> leaves, which its documentation does not fix.
\<close>

theorem mergeChunks_order_by_key_only:
  assumes glob: "filepath_Glob e (filepath_Join e inputDir ''*.chunk'') = (chunks, None)"
    and srt: "sort_Slice_post less_chunks chunks (sort_Slice e less_chunks chunks)"
    and out: "outputFile \<notin> set chunks"
    and ok: "mergeChunks e w inputDir outputFile = (None, w')"
  shows "\<exists>ordered. files w' outputFile = Some (concat (map (content_of (files w)) ordered))
           \<and> mset ordered = mset chunks
           \<and> map extractNumber ordered = sort (map extractNumber chunks)
           \<and> (distinct (map extractNumber chunks) \<longrightarrow> ordered = sort_key extractNumber chunks)"
proof -
  let ?cs = "sort_Slice e less_chunks chunks"
  from srt have perm: "mset ?cs = mset chunks" and sorted: "sorted (map extractNumber ?cs)"
    by (simp_all add: sort_Slice_post_def sorted_wrt_less_chunks)
  from perm have same_set: "set ?cs = set chunks"
    by (rule mset_eq_setD)
  with out have out': "outputFile \<notin> set ?cs" by simp
  from mergeChunks_ok [OF glob out' ok]
  have art: "files w' outputFile = Some (concat (map (content_of (files w)) ?cs))"
    by simp
  from perm have "mset (map extractNumber ?cs) = mset (map extractNumber chunks)"
    by simp
  from properties_for_sort [OF this sorted]
  have keys: "map extractNumber ?cs = sort (map extractNumber chunks)"
    by simp
  have uniq: "?cs = sort_key extractNumber chunks" if "distinct (map extractNumber chunks)"
  proof -
    from that have "inj_on extractNumber (set chunks)"
      by (simp add: distinct_map)
    from sort_key_inj_key_eq [OF perm [symmetric] this sorted] show ?thesis
      by simp
  qed
  from art perm keys uniq show ?thesis by blast
qed


theorem mergeChunks_order_by_key_only_witness:
  "\<exists>ordered. files (demo_world\<lparr>files := (files demo_world)(''v/merged.mp4'' \<mapsto> ''ABC'')\<rparr>)
         ''v/merged.mp4'' = Some (concat (map (content_of (files demo_world)) ordered))
     \<and> mset ordered = mset [''v/2.chunk'', ''v/0.chunk'', ''v/1.chunk'']
     \<and> map extractNumber ordered = sort (map extractNumber [''v/2.chunk'', ''v/0.chunk'', ''v/1.chunk''])
     \<and> ordered = sort_key extractNumber [''v/2.chunk'', ''v/0.chunk'', ''v/1.chunk'']"
proof -
  let ?chunks = "[''v/2.chunk'', ''v/0.chunk'', ''v/1.chunk'']"
  have glob: "filepath_Glob demo_env (filepath_Join demo_env ''v'' ''*.chunk'') = (?chunks, None)"
    by (simp add: demo_env_def)
  have srt: "sort_Slice_post less_chunks ?chunks (sort_Slice demo_env less_chunks ?chunks)"
    by (simp add: demo_env_def sort_demo sort_Slice_post_def less_chunks_def key_0 key_1 key_2)
  have out: "''v/merged.mp4'' \<notin> set ?chunks"
    by simp
  have dist: "distinct (map extractNumber ?chunks)"
    by (simp add: key_0 key_1 key_2)
  from mergeChunks_order_by_key_only [OF glob srt out merge_demo] obtain ordered where
    art: "files (demo_world\<lparr>files := (files demo_world)(''v/merged.mp4'' \<mapsto> ''ABC'')\<rparr>)
            ''v/merged.mp4'' = Some (concat (map (content_of (files demo_world)) ordered))"
    and perm: "mset ordered = mset ?chunks"
    and keys: "map extractNumber ordered = sort (map extractNumber ?chunks)"
    and uniq: "distinct (map extractNumber ?chunks) \<longrightarrow> ordered = sort_key extractNumber ?chunks"
    by (elim exE conjE)
  from uniq dist have "ordered = sort_key extractNumber ?chunks"
    by (rule mp)
  with art perm keys show ?thesis
    by (intro exI [of _ ordered] conjI)
qed

text \<open>
  C5 as stated fails: the program sorts with \<open>sort.Slice\<close>, which is not a stable sort.
  Of thirteen chunks listed in filename order, \<open>a1\<close> to \<open>f1\<close>, \<open>g0\<close>, \<open>h1\<close> to \<open>l1\<close>
  and \<open>m0\<close>, the chunks \<open>a1\<close> and \<open>d1\<close> share the key 1 and \<open>a1\<close> is listed first. The
  sort of the Go standard library leaves \<open>d1\<close> before \<open>a1\<close>, and the merged output holds
  \<open>D\<close> before \<open>A\<close>; a stable sort would have given \<open>GMABCDEFHIJKL\<close>.
\<close>

theorem chunk_sort_unstable_counterexample:
  "filepath_Glob tie_env (filepath_Join tie_env ''v'' ''*.chunk'')
       = ([''v/a1.chunk'', ''v/b1.chunk'', ''v/c1.chunk'', ''v/d1.chunk'', ''v/e1.chunk'',
           ''v/f1.chunk'', ''v/g0.chunk'', ''v/h1.chunk'', ''v/i1.chunk'', ''v/j1.chunk'',
           ''v/k1.chunk'', ''v/l1.chunk'', ''v/m0.chunk''], None)
   \<and> extractNumber ''v/a1.chunk'' = extractNumber ''v/d1.chunk''
   \<and> sort_Slice tie_env less_chunks tie_chunks = go_sort_Slice less_chunks tie_chunks
   \<and> go_sort_Slice less_chunks tie_chunks
       = [''v/g0.chunk'', ''v/m0.chunk'', ''v/d1.chunk'', ''v/a1.chunk'', ''v/e1.chunk'',
          ''v/f1.chunk'', ''v/c1.chunk'', ''v/h1.chunk'', ''v/i1.chunk'', ''v/j1.chunk'',
          ''v/k1.chunk'', ''v/l1.chunk'', ''v/b1.chunk'']
   \<and> sort_Slice_post less_chunks tie_chunks (sort_Slice tie_env less_chunks tie_chunks)
   \<and> files tie_world ''v/a1.chunk'' = Some ''A''
   \<and> files tie_world ''v/d1.chunk'' = Some ''D''
   \<and> fst (mergeChunks tie_env tie_world ''v'' ''v/merged.mp4'') = None
   \<and> files (snd (mergeChunks tie_env tie_world ''v'' ''v/merged.mp4'')) ''v/merged.mp4''
       = Some ''GMDAEFCHIJKLB''
   \<and> concat (map (content_of (files tie_world)) (sort_key extractNumber tie_chunks))
       = ''GMABCDEFHIJKL''"
proof -
  have glob: "filepath_Glob tie_env (filepath_Join tie_env ''v'' ''*.chunk'')
       = ([''v/a1.chunk'', ''v/b1.chunk'', ''v/c1.chunk'', ''v/d1.chunk'', ''v/e1.chunk'',
           ''v/f1.chunk'', ''v/g0.chunk'', ''v/h1.chunk'', ''v/i1.chunk'', ''v/j1.chunk'',
           ''v/k1.chunk'', ''v/l1.chunk'', ''v/m0.chunk''], None)"
    by (simp add: tie_env_def tie_chunks_def)
  have keys: "extractNumber ''v/a1.chunk'' = extractNumber ''v/d1.chunk''"
    by (simp add: key_a1 key_d1)
  have lib: "sort_Slice tie_env less_chunks tie_chunks = go_sort_Slice less_chunks tie_chunks"
    by (simp add: tie_env_def)
  have run: "go_sort_Slice less_chunks tie_chunks
       = [''v/g0.chunk'', ''v/m0.chunk'', ''v/d1.chunk'', ''v/a1.chunk'', ''v/e1.chunk'',
          ''v/f1.chunk'', ''v/c1.chunk'', ''v/h1.chunk'', ''v/i1.chunk'', ''v/j1.chunk'',
          ''v/k1.chunk'', ''v/l1.chunk'', ''v/b1.chunk'']"
    unfolding sort_tie by (simp add: tie_sorted_def)
  have srt: "sort_Slice_post less_chunks tie_chunks (sort_Slice tie_env less_chunks tie_chunks)"
    unfolding lib sort_tie by (rule post_tie)
  have a: "files tie_world ''v/a1.chunk'' = Some ''A''"
    and d: "files tie_world ''v/d1.chunk'' = Some ''D''"
    by (simp_all add: tie_world_def)
  have r: "fst (mergeChunks tie_env tie_world ''v'' ''v/merged.mp4'') = None"
    and art: "files (snd (mergeChunks tie_env tie_world ''v'' ''v/merged.mp4'')) ''v/merged.mp4''
      = Some ''GMDAEFCHIJKLB''"
    by (simp_all add: merge_tie)
  have stable: "concat (map (content_of (files tie_world)) (sort_key extractNumber tie_chunks))
      = ''GMABCDEFHIJKL''"
    unfolding stable_tie by (simp add: content_of_def tie_world_def)
  from glob keys lib run srt a d r art stable show ?thesis
    by (intro conjI)
qed

text \<open>
  C2 (as amended). The pipeline never consults or updates the idempotency store: whatever
  the message, \<open>Handle\<close> leaves the database as it was, executing no statement and
  writing no success record. \<open>processVideo\<close> returns without error only after the merged
  artifact has been removed.
\<close>

theorem pipeline_never_uses_store:
  "(\<forall>w'. Handle e w msg = Inr w' \<longrightarrow> database w' = database w)
   \<and> (\<forall>w'. processVideo e w task = Inr (None, w') \<longrightarrow>
         database w' = database w
         \<and> files w' (filepath_Join e (Path task) ''merged.mp4'') = None)"
  using Handle_database processVideo_database processVideo_success_removed
  by blast

theorem pipeline_never_uses_store_witness:
  "database demo_done = database demo_world
   \<and> files demo_done (filepath_Join demo_env (Path demo_task) ''merged.mp4'') = None"
proof -
  from pipeline_never_uses_store [of demo_env demo_world demo_msg demo_task]
  have "\<forall>w'. processVideo demo_env demo_world demo_task = Inr (None, w') \<longrightarrow>
      database w' = database demo_world
      \<and> files w' (filepath_Join demo_env (Path demo_task) ''merged.mp4'') = None"
    by (rule conjunct2)
  then have "processVideo demo_env demo_world demo_task = Inr (None, demo_done) \<longrightarrow>
      database demo_done = database demo_world
      \<and> files demo_done (filepath_Join demo_env (Path demo_task) ''merged.mp4'') = None"
    by (rule spec)
  then show ?thesis using process_demo
    by (rule mp)
qed

text \<open>
  C2 as stated fails: the sample task is handled without any error, no statement has been
  run against the database, and the table of success records is as empty as before.
\<close>

theorem Handle_success_without_record_counterexample:
  "Handle demo_env demo_world demo_msg = Inr demo_done
   \<and> processVideo demo_env demo_world demo_task = Inr (None, demo_done)
   \<and> processed_videos (database demo_world) = []
   \<and> processed_videos (database demo_done) = []
   \<and> statements (database demo_done) = []"
  by (simp add: handle_demo process_demo) (simp add: demo_done_def demo_world_def demo_db_def)

text \<open>
  C6. A terminal failure is logged but not stored in the error log: \<open>logError\<close> ends
  with the comment \<open>todo: register error on database\<close> and \<open>RegisterError\<close> is never
  called. For a message that does not decode, \<open>Handle\<close> leaves one record in the log, and
  the table \<open>process_errors_log\<close> stays empty with no statement run.
\<close>

theorem Handle_decode_failure_not_persisted:
  "Handle demo_env demo_world ''{'' =
     Inr (demo_world\<lparr>slog := [error_record demo_env \<lparr>VideoID = 0, Path = []\<rparr>
                                  ''failed to unmarshal task'' ''unexpected end of JSON input'']\<rparr>)
   \<and> process_errors_log (database (demo_world\<lparr>slog :=
         [error_record demo_env \<lparr>VideoID = 0, Path = []\<rparr>
            ''failed to unmarshal task'' ''unexpected end of JSON input'']\<rparr>)) = []
   \<and> statements (database (demo_world\<lparr>slog :=
         [error_record demo_env \<lparr>VideoID = 0, Path = []\<rparr>
            ''failed to unmarshal task'' ''unexpected end of JSON input'']\<rparr>)) = []"
proof -
  have dec: "json_Unmarshal demo_env ''{'' \<lparr>VideoID = 0, Path = []\<rparr>
      = (\<lparr>VideoID = 0, Path = []\<rparr>, Some ''unexpected end of JSON input'')"
    by (simp add: demo_env_def demo_msg_def)
  have h: "Handle demo_env demo_world ''{'' =
     Inr (demo_world\<lparr>slog := [error_record demo_env \<lparr>VideoID = 0, Path = []\<rparr>
                                  ''failed to unmarshal task'' ''unexpected end of JSON input'']\<rparr>)"
    by (simp add: Handle_def dec logError_def) (simp add: demo_world_def)
  have db: "process_errors_log (database demo_world) = []"
    "statements (database demo_world) = []"
    by (simp_all add: demo_world_def demo_db_def)
  show ?thesis
    unfolding h using db by simp
qed

text \<open>
  C7. Once the merge and the directory creation have succeeded, the encoder's run counts as
  a success exactly when it exits with status 0. Otherwise \<open>processVideo\<close> fails with the
  error of the run, and the last record it logs is an error-level record whose \<open>error\<close>
  field is the text \<open>failed to convert video to mpeg-dash, output: \<close> followed by the
  combined output of the command, and whose \<open>details\<close> field is the error of the run;
  for a command that exited, that output is what it wrote. On success the pipeline goes on
  and logs that the video is converted.
\<close>

theorem transcode_failure_reported:
  assumes merge: "mergeChunks e (slog_Info w ''Merging chunks'' [(''path'', SlogString (Path task))])
        (Path task) (mergedFile_of e task) = (None, w2)"
    and mkdir: "MkdirAll_fault e (mpegDashPath_of e task) = None"
    and run: "run_command e (ffmpegCmd e (mergedFile_of e task) (mpegDashPath_of e task)) (files w2)
        = (outcome, fs)"
  shows "(snd (CombinedOutput outcome) = None \<longleftrightarrow> (\<exists>output. outcome = ExitStatus 0 output))
     \<and> (\<forall>err. snd (CombinedOutput outcome) = Some err \<longrightarrow>
          (\<exists>w'. processVideo e w task = Inr (Some err, w')
             \<and> last (slog w') =
                  (LevelError, ''Processing error'',
                   [(''error_details'', SlogJson (JsonOf
                      [(''video_id'', AInt (VideoID task)),
                       (''error'', AStr (''failed to convert video to mpeg-dash, output: ''
                          @ fst (CombinedOutput outcome))),
                       (''details'', AStr err), (''time'', ATime (time_Now e))]))])
             \<and> files w' = fs))
     \<and> (snd (CombinedOutput outcome) = None \<longrightarrow>
          (\<exists>r w'. processVideo e w task = Inr (r, w')
             \<and> (LevelInfo, ''Video convert to mpeg-dash'',
                  [(''path'', SlogString (mpegDashPath_of e task))]) \<in> set (slog w')))
     \<and> (\<forall>code output. outcome = ExitStatus code output \<longrightarrow> fst (CombinedOutput outcome) = output)"
proof -
  note pv = processVideo_at_transcoder [OF merge mkdir run]
  have failure: "\<exists>w'. processVideo e w task = Inr (Some err, w')
      \<and> last (slog w') =
                  (LevelError, ''Processing error'',
                   [(''error_details'', SlogJson (JsonOf
                      [(''video_id'', AInt (VideoID task)),
                       (''error'', AStr (''failed to convert video to mpeg-dash, output: ''
                          @ fst (CombinedOutput outcome))),
                       (''details'', AStr err), (''time'', ATime (time_Now e))]))])
      \<and> files w' = fs"
    if "snd (CombinedOutput outcome) = Some err" for err
  proof -
    from that obtain captured where "CombinedOutput outcome = (captured, Some err)"
      by (cases "CombinedOutput outcome") simp
    then show ?thesis
      unfolding pv Let_def by (simp add: error_record_def json_Marshal_def)
  qed
  have success: "\<exists>r w'. processVideo e w task = Inr (r, w')
      \<and> (LevelInfo, ''Video convert to mpeg-dash'',
           [(''path'', SlogString (mpegDashPath_of e task))]) \<in> set (slog w')"
    if "snd (CombinedOutput outcome) = None"
  proof -
    from that obtain captured where co: "CombinedOutput outcome = (captured, None)"
      by (cases "CombinedOutput outcome") simp
    let ?w6 = "w2\<lparr>slog := slog w2 @
                 [(LevelInfo, ''Creating mpeg-dash dir'', [(''path'', SlogString (Path task))]),
                  (LevelInfo, ''Converting video to mpeg-dash'', [(''path'', SlogString (Path task))])],
               dirs := insert (mpegDashPath_of e task) (dirs w2), files := fs\<rparr>"
    let ?w8 = "?w6\<lparr>slog := slog ?w6 @
                  [(LevelInfo, ''Video convert to mpeg-dash'', [(''path'', SlogString (mpegDashPath_of e task))]),
                   (LevelInfo, ''Removing merged file'', [(''path'', SlogString (mergedFile_of e task))])]\<rparr>"
    obtain r9 w9 where rm: "os_Remove e ?w8 (mergedFile_of e task) = (r9, w9)"
      by (cases "os_Remove e ?w8 (mergedFile_of e task)")
    from os_Remove_frame [OF rm] have "slog w9 = slog ?w8"
      by simp
    then have mem: "(LevelInfo, ''Video convert to mpeg-dash'',
        [(''path'', SlogString (mpegDashPath_of e task))]) \<in> set (slog w9)"
      by simp
    show ?thesis
    proof (cases r9)
      case None
      with co rm have "processVideo e w task = Inr (None, w9)"
        unfolding pv Let_def by simp
      with mem show ?thesis by blast
    next
      case (Some err)
      with co rm have "processVideo e w task = Inr (Some err,
          w9\<lparr>slog := slog w9 @ [error_record e task ''failed to remove merged file'' err]\<rparr>)"
        unfolding pv Let_def report_eq by simp
      moreover from mem have "(LevelInfo, ''Video convert to mpeg-dash'',
          [(''path'', SlogString (mpegDashPath_of e task))])
        \<in> set (slog (w9\<lparr>slog := slog w9 @ [error_record e task ''failed to remove merged file'' err]\<rparr>))"
        by simp
      ultimately show ?thesis by blast
    qed
  qed
  from CombinedOutput_success [of outcome] failure success CombinedOutput_output [of outcome]
  show ?thesis by blast
qed


theorem transcode_failure_reported_witness:
  "\<exists>w'. processVideo ffmpeg_fail_env demo_world demo_task = Inr (Some ''exit status 1'', w')
     \<and> last (slog w') =
          (LevelError, ''Processing error'',
           [(''error_details'', SlogJson (JsonOf
              [(''video_id'', AInt 7),
               (''error'', AStr ''failed to convert video to mpeg-dash, output: v/merged.mp4: Invalid data found when processing input''),
               (''details'', AStr ''exit status 1''), (''time'', ATime 1700000000)]))])
     \<and> files w' = (files demo_world)(''v/merged.mp4'' \<mapsto> ''ABC'')"
proof -
  let ?w1 = "slog_Info demo_world ''Merging chunks'' [(''path'', SlogString (Path demo_task))]"
  let ?w2 = "?w1\<lparr>files := (files demo_world)(''v/merged.mp4'' \<mapsto> ''ABC'')\<rparr>"
  let ?outcome = "ExitStatus 1 ''v/merged.mp4: Invalid data found when processing input''"
  have paths: "Path demo_task = ''v''" "mergedFile_of ffmpeg_fail_env demo_task = ''v/merged.mp4''"
    "mpegDashPath_of ffmpeg_fail_env demo_task = ''v/mpeg-dash''"
    by (simp_all add: demo_task_def mergedFile_of_def mpegDashPath_of_def ffmpeg_fail_env_def
        demo_env_def)
  have merge: "mergeChunks ffmpeg_fail_env ?w1 (Path demo_task)
      (mergedFile_of ffmpeg_fail_env demo_task) = (None, ?w2)"
    unfolding paths by (rule merge_ffmpeg_fail) (simp add: slog_Info_def)
  have mkdir: "MkdirAll_fault ffmpeg_fail_env (mpegDashPath_of ffmpeg_fail_env demo_task) = None"
    by (simp add: ffmpeg_fail_env_def demo_env_def)
  have run: "run_command ffmpeg_fail_env
      (ffmpegCmd ffmpeg_fail_env (mergedFile_of ffmpeg_fail_env demo_task)
        (mpegDashPath_of ffmpeg_fail_env demo_task)) (files ?w2)
      = (?outcome, (files demo_world)(''v/merged.mp4'' \<mapsto> ''ABC''))"
    by (simp add: ffmpeg_fail_env_def)
  have co: "snd (CombinedOutput ?outcome) = Some ''exit status 1''"
    by simp
  have out: "fst (CombinedOutput ?outcome)
      = ''v/merged.mp4: Invalid data found when processing input''"
    by simp
  note t = transcode_failure_reported [OF merge mkdir run]
  from t have "\<forall>err. snd (CombinedOutput ?outcome) = Some err \<longrightarrow>
      (\<exists>w'. processVideo ffmpeg_fail_env demo_world demo_task = Inr (Some err, w')
         \<and> last (slog w') =
              (LevelError, ''Processing error'',
               [(''error_details'', SlogJson (JsonOf
                  [(''video_id'', AInt (VideoID demo_task)),
                   (''error'', AStr (''failed to convert video to mpeg-dash, output: ''
                          @ fst (CombinedOutput ?outcome))),
                   (''details'', AStr err), (''time'', ATime (time_Now ffmpeg_fail_env))]))])
         \<and> files w' = (files demo_world)(''v/merged.mp4'' \<mapsto> ''ABC''))"
    by (rule conjunct1 [OF conjunct2])
  then have "snd (CombinedOutput ?outcome) = Some ''exit status 1'' \<longrightarrow>
      (\<exists>w'. processVideo ffmpeg_fail_env demo_world demo_task = Inr (Some ''exit status 1'', w')
         \<and> last (slog w') =
              (LevelError, ''Processing error'',
               [(''error_details'', SlogJson (JsonOf
                  [(''video_id'', AInt (VideoID demo_task)),
                   (''error'', AStr (''failed to convert video to mpeg-dash, output: ''
                          @ fst (CombinedOutput ?outcome))),
                   (''details'', AStr ''exit status 1''), (''time'', ATime (time_Now ffmpeg_fail_env))]))])
         \<and> files w' = (files demo_world)(''v/merged.mp4'' \<mapsto> ''ABC''))"
    by (rule spec)
  from this co have "\<exists>w'. processVideo ffmpeg_fail_env demo_world demo_task
        = Inr (Some ''exit status 1'', w')
      \<and> last (slog w') =
              (LevelError, ''Processing error'',
               [(''error_details'', SlogJson (JsonOf
                  [(''video_id'', AInt (VideoID demo_task)),
                   (''error'', AStr (''failed to convert video to mpeg-dash, output: ''
                          @ fst (CombinedOutput ?outcome))),
                   (''details'', AStr ''exit status 1''), (''time'', ATime (time_Now ffmpeg_fail_env))]))])
      \<and> files w' = (files demo_world)(''v/merged.mp4'' \<mapsto> ''ABC'')"
    by (rule mp)
  then show ?thesis
    unfolding out by (simp add: demo_task_def ffmpeg_fail_env_def demo_env_def)
qed

text \<open>
  C8. When the insert into the error log fails, \<open>RegisterError\<close> logs that failure at
  error level and returns: it does not panic, it leaves both tables as they were, and it
  hands back no error of its own, so the failure being reported is not replaced. This holds
  for every payload and every error argument, a nil one included, on a live handle.
\<close>

theorem RegisterError_persistence_failure:
  assumes "db_fault (database w) registerErrorQuery = Some dbErr"
  shows "RegisterError e w DB errorData err =
     Inr (w\<lparr>database := (database w)\<lparr>statements := statements (database w) @ [registerErrorQuery]\<rparr>,
            slog := slog w @ [(LevelError, ''Error storing error log in database'',
                               [(''error'', SlogString dbErr)])]\<rparr>)"
  using assms by (simp add: RegisterError_def run_statement_def slog_Error_def)


theorem RegisterError_persistence_failure_witness:
  "RegisterError demo_env outage_world DB
       [(''video_id'', AInt 7), (''error'', AStr ''failed to process video'')] (Some ''exit status 1'') =
     Inr (outage_world\<lparr>database := (database outage_world)\<lparr>statements :=
              statements (database outage_world) @ [registerErrorQuery]\<rparr>,
            slog := slog outage_world @ [(LevelError, ''Error storing error log in database'',
              [(''error'', SlogString ''dial tcp 127.0.0.1:5432: connect: connection refused'')])]\<rparr>)"
proof -
  have "db_fault (database outage_world) registerErrorQuery
      = Some ''dial tcp 127.0.0.1:5432: connect: connection refused''"
    by (simp add: outage_world_def)
  then show ?thesis
    by (rule RegisterError_persistence_failure)
qed

text \<open>
  C9. When the query of \<open>IsProcessed\<close> fails, it returns false after logging the
  failure, whatever the table of success records holds: the caller cannot tell an outage
  from a task that was never processed.
\<close>

theorem IsProcessed_query_failure:
  assumes "db_fault (database w) isProcessedQuery = Some err"
  shows "IsProcessed w DB videoID =
     Inr (False,
          w\<lparr>database := (database w)\<lparr>statements := statements (database w) @ [isProcessedQuery]\<rparr>,
            slog := slog w @ [(LevelError, ''Error checking if video is processed'',
                               [(''video_id'', SlogInt videoID)])]\<rparr>)"
  using assms by (simp add: IsProcessed_def run_statement_def slog_Error_def)



theorem IsProcessed_query_failure_witness:
  "list_ex (\<lambda>(vid, status, t). vid = 7 \<and> status = ''success'')
       (processed_videos (database outage_world))
   \<and> IsProcessed outage_world DB 7 =
       Inr (False,
            outage_world\<lparr>database := (database outage_world)\<lparr>statements :=
                statements (database outage_world) @ [isProcessedQuery]\<rparr>,
              slog := slog outage_world @ [(LevelError, ''Error checking if video is processed'',
                [(''video_id'', SlogInt 7)])]\<rparr>)"
proof -
  have rec: "list_ex (\<lambda>(vid, status, t). vid = 7 \<and> status = ''success'')
      (processed_videos (database outage_world))"
    by (simp add: outage_world_def)
  have "db_fault (database outage_world) isProcessedQuery
      = Some ''dial tcp 127.0.0.1:5432: connect: connection refused''"
    by (simp add: outage_world_def)
  then have "IsProcessed outage_world DB 7 =
       Inr (False,
            outage_world\<lparr>database := (database outage_world)\<lparr>statements :=
                statements (database outage_world) @ [isProcessedQuery]\<rparr>,
              slog := slog outage_world @ [(LevelError, ''Error checking if video is processed'',
                [(''video_id'', SlogInt 7)])]\<rparr>)"
    by (rule IsProcessed_query_failure)
  with rec show ?thesis
    by (rule conjI)
qed

text \<open>
  C10. \<open>Handle\<close> returns normally on every message, every call to the system and to the
  encoder being taken to return: it never panics and has no error to hand back. When the
  message does not decode, it logs that failure and changes nothing else; when the
  processing fails, it logs the failure after what \<open>processVideo\<close> has done.
\<close>

theorem Handle_returns_normally:
  "(\<exists>w'. Handle e w msg = Inr w')
   \<and> (\<forall>task err. json_Unmarshal e msg \<lparr>VideoID = 0, Path = []\<rparr> = (task, Some err) \<longrightarrow>
         Handle e w msg = Inr (w\<lparr>slog := slog w @
           [error_record e task ''failed to unmarshal task'' err]\<rparr>))
   \<and> (\<forall>task err w1. json_Unmarshal e msg \<lparr>VideoID = 0, Path = []\<rparr> = (task, None)
           \<and> processVideo e w task = Inr (Some err, w1) \<longrightarrow>
         Handle e w msg = Inr (w1\<lparr>slog := slog w1 @
           [error_record e task ''failed to process video'' err]\<rparr>))"
proof -
  have decode: "Handle e w msg = Inr (w\<lparr>slog := slog w @
      [error_record e task ''failed to unmarshal task'' err]\<rparr>)"
    if "json_Unmarshal e msg \<lparr>VideoID = 0, Path = []\<rparr> = (task, Some err)" for task err
    using that by (simp add: Handle_def logError_def)
  have process: "Handle e w msg = Inr (w1\<lparr>slog := slog w1 @
      [error_record e task ''failed to process video'' err]\<rparr>)"
    if "json_Unmarshal e msg \<lparr>VideoID = 0, Path = []\<rparr> = (task, None)"
      and "processVideo e w task = Inr (Some err, w1)" for task err w1
    using that by (simp add: Handle_def logError_def)
  from Handle_total [of e w msg] decode process show ?thesis
    by blast
qed

theorem Handle_returns_normally_witness:
  "Handle fault_env fault_world demo_msg =
     Inr (fault_merge_failed\<lparr>slog := slog fault_merge_failed @
       [error_record fault_env demo_task ''failed to process video''
          ''failed to write chunk v/1.chunk to merged file: no space left on device'']\<rparr>)"
proof -
  have dec: "json_Unmarshal fault_env demo_msg \<lparr>VideoID = 0, Path = []\<rparr> = (demo_task, None)"
    by (simp add: fault_env_def demo_env_def)
  from Handle_returns_normally [of fault_env fault_world demo_msg]
  have "\<forall>task err w1. json_Unmarshal fault_env demo_msg \<lparr>VideoID = 0, Path = []\<rparr> = (task, None)
           \<and> processVideo fault_env fault_world task = Inr (Some err, w1) \<longrightarrow>
         Handle fault_env fault_world demo_msg = Inr (w1\<lparr>slog := slog w1 @
           [error_record fault_env task ''failed to process video'' err]\<rparr>)"
    by (rule conjunct2 [OF conjunct2])
  then have "json_Unmarshal fault_env demo_msg \<lparr>VideoID = 0, Path = []\<rparr> = (demo_task, None)
           \<and> processVideo fault_env fault_world demo_task
               = Inr (Some ''failed to write chunk v/1.chunk to merged file: no space left on device'',
                      fault_merge_failed) \<longrightarrow>
         Handle fault_env fault_world demo_msg = Inr (fault_merge_failed\<lparr>slog :=
           slog fault_merge_failed @ [error_record fault_env demo_task ''failed to process video''
             ''failed to write chunk v/1.chunk to merged file: no space left on device'']\<rparr>)"
    by (elim allE)
  moreover from dec process_fault
  have "json_Unmarshal fault_env demo_msg \<lparr>VideoID = 0, Path = []\<rparr> = (demo_task, None)
           \<and> processVideo fault_env fault_world demo_task
               = Inr (Some ''failed to write chunk v/1.chunk to merged file: no space left on device'',
                      fault_merge_failed)"
    by (rule conjI)
  ultimately show ?thesis
    by (rule mp)
qed

end
